theory Spec2Isabelle
  imports Complex_Main "HOL-Library.Sublist"
begin

section \<open>Strings and numbers of the notifier\<close>

text \<open>
  The notifier (\<^verbatim>\<open>improved_fb_notifier_images.js\<close>) works on JavaScript strings and
  numbers. A string is modelled as a \<^typ>\<open>string\<close> of 8-bit characters, which covers ASCII
  text (other text as its UTF-8 bytes), and the character classes below are the ASCII
  ones: \<^verbatim>\<open>toLowerCase\<close> maps \<^verbatim>\<open>A-Z\<close> and \<^verbatim>\<open>\s\<close> is tab, line feed, vertical tab, form
  feed, carriage return and space. A number is
  modelled as the exact rational it denotes: the rounding of a decimal literal to an IEEE
  double, and the infinities, are outside the model. \<^verbatim>\<open>NaN\<close> is \<^term>\<open>None\<close>.
\<close>

definition isDigit :: "char \<Rightarrow> bool" where
  "isDigit c = (c \<in> set ''0123456789'')"

definition isSpace :: "char \<Rightarrow> bool" where
  "isSpace c = (c \<in> set [CHR 0x09, CHR 0x0A, CHR 0x0B, CHR 0x0C, CHR 0x0D, CHR 0x20])"

definition toLowerChar :: "char \<Rightarrow> char" where
  "toLowerChar c =
     (case map_of (zip ''ABCDEFGHIJKLMNOPQRSTUVWXYZ'' ''abcdefghijklmnopqrstuvwxyz'') c of
        None \<Rightarrow> c
      | Some d \<Rightarrow> d)"

definition toLowerCase :: "string \<Rightarrow> string" where
  "toLowerCase s = map toLowerChar s"

text \<open>\<^verbatim>\<open>s.includes(t)\<close>: \<open>t\<close> occurs in \<open>s\<close> as a contiguous run.\<close>

fun str_includes :: "string \<Rightarrow> string \<Rightarrow> bool" where
  "str_includes [] t = (t = [])"
| "str_includes (c # cs) t = (prefix t (c # cs) \<or> str_includes cs t)"

text \<open>\<^verbatim>\<open>s.trim()\<close>.\<close>

definition trim :: "string \<Rightarrow> string" where
  "trim s = rev (dropWhile isSpace (rev (dropWhile isSpace s)))"

definition digitChar :: "nat \<Rightarrow> char" where
  "digitChar d = ''0123456789'' ! (d mod 10)"

definition digitVal :: "char \<Rightarrow> nat" where
  "digitVal c = of_char c - 48"

definition digitsVal :: "string \<Rightarrow> nat" where
  "digitsVal ds = foldl (\<lambda>n c. 10 * n + digitVal c) 0 ds"

text \<open>The decimal numeral of a natural number, as a template literal prints a length.\<close>

fun show_nat :: "nat \<Rightarrow> string" where
  "show_nat n = (if n < 10 then [digitChar n] else show_nat (n div 10) @ [digitChar (n mod 10)])"

declare show_nat.simps [simp del]

text \<open>\<^verbatim>\<open>priceStr.replace(/[^0-9.]/g, '')\<close>.\<close>

definition stripNonNumeric :: "string \<Rightarrow> string" where
  "stripNonNumeric s = filter (\<lambda>c. isDigit c \<or> c = CHR ''.'') s"

text \<open>
  \<^verbatim>\<open>parseFloat\<close>, as the program calls it: on a string of digits and dots. It reads the
  longest prefix that is a decimal literal (digits, then optionally a dot and digits; or
  a dot and at least one digit) and is \<^verbatim>\<open>NaN\<close> when there is none.
\<close>

definition parseFloat :: "string \<Rightarrow> rat option" where
  "parseFloat s =
     (let ip = takeWhile isDigit s;
          r = dropWhile isDigit s;
          fp = (case r of [] \<Rightarrow> [] | c # r' \<Rightarrow> if c = CHR ''.'' then takeWhile isDigit r' else [])
      in if ip = [] \<and> fp = [] then None
         else Some (of_nat (digitsVal ip) + of_nat (digitsVal fp) / 10 ^ length fp))"

text \<open>
  \<^verbatim>\<open>x.toFixed(2)\<close>: the integer \<open>n\<close> with \<open>n / 100\<close> nearest to \<open>x\<close>, the larger one on
  a tie, printed with two decimals; a negative \<open>x\<close> prints its sign first. (From
  \<open>10\<^sup>2\<^sup>1\<close> on JavaScript prints an exponent instead; such prices are outside the model.)
\<close>

definition toFixed2 :: "rat \<Rightarrow> string" where
  "toFixed2 x =
     (let n = nat \<lfloor>\<bar>x\<bar> * 100 + 1 / 2\<rfloor>;
          body = show_nat (n div 100) @ ''.'' @ [digitChar (n mod 100 div 10), digitChar (n mod 10)]
      in if x < 0 then ''-'' @ body else body)"

section \<open>Configuration and reference data\<close>

text \<open>
  The fields of \<^verbatim>\<open>CONFIG\<close> that the filtering, estimation, notification and run code read.
  \<^verbatim>\<open>null\<close> for a price bound is \<^term>\<open>None\<close>; \<open>activeStart\<close> and \<open>activeEnd\<close> are
  \<^verbatim>\<open>activeHours.start\<close> and \<^verbatim>\<open>activeHours.end\<close>; \<open>sender\<close> and \<open>recipients\<close> are those of
  \<^verbatim>\<open>email\<close>.
\<close>

record config =
  searchTerms :: "string list"
  minPrice :: "rat option"
  maxPrice :: "rat option"
  includeFreeItems :: bool
  activeStart :: int
  activeEnd :: int
  sender :: string
  recipients :: "string list"
  fetchListingDetails :: bool
  priceEstimationEnabled :: bool
  qualityIncludeKeywords :: "string list"
  qualityExcludeKeywords :: "string list"

text \<open>
  A value of \<^verbatim>\<open>categoryAvgPrice.json\<close>: a number, or anything else JSON can hold. The
  mapping itself is the list of its entries in the order \<^verbatim>\<open>Object.keys\<close> gives them.
\<close>

datatype jsvalue = JNumber rat | JNotNumber

type_synonym category_prices = "(string \<times> jsvalue) list"

section \<open>The resale estimator\<close>

text \<open>
  The regular expression \<^verbatim>\<open>/\s*\/\s*|\s+>/\<close> tried at the head of a string: the first
  alternative is any white space, a slash, any white space; the second is at least one
  white-space character and then \<^verbatim>\<open>>\<close>. The result is what follows the match.
\<close>

definition matchSeparator :: "string \<Rightarrow> string option" where
  "matchSeparator s =
     (let ws = takeWhile isSpace s; r = dropWhile isSpace s
      in case r of
           [] \<Rightarrow> None
         | c # r' \<Rightarrow>
             if c = CHR ''/'' then Some (dropWhile isSpace r')
             else if ws \<noteq> [] \<and> c = CHR ''>'' then Some r'
             else None)"

text \<open>
  \<^verbatim>\<open>name.split(/\s*\/\s*|\s+>/g)\<close>: scan from the left; where the separator matches, close
  the current token and go on behind the match; otherwise the character joins the token.
  \<open>acc\<close> is the current token, reversed.
\<close>

function splitFrom :: "string \<Rightarrow> string \<Rightarrow> string list" where
  "splitFrom acc [] = [rev acc]"
| "splitFrom acc (c # cs) =
     (case matchSeparator (c # cs) of
        Some rest \<Rightarrow> rev acc # splitFrom [] rest
      | None \<Rightarrow> splitFrom (c # acc) cs)"
  by pat_completeness auto
termination
proof (relation "measure (\<lambda>(acc, s). length s)")
  show "wf (measure (\<lambda>(acc, s). length s))"
    by simp
next
  fix acc :: string and c cs rest
  assume m: "matchSeparator (c # cs) = Some rest"
  have a: "length (dropWhile isSpace (c # cs)) \<le> length (c # cs)"
    by (rule length_dropWhile_le)
  have "length rest < length (c # cs)"
  proof (cases "dropWhile isSpace (c # cs)")
    case Nil
    with m show ?thesis
      by (simp add: matchSeparator_def)
  next
    case (Cons d r')
    have b: "length (dropWhile isSpace r') \<le> length r'"
      by (rule length_dropWhile_le)
    from a Cons have "length r' < length (c # cs)"
      by simp
    with b m Cons show ?thesis
      by (auto simp: matchSeparator_def Let_def split: if_splits)
  qed
  then show "(([], rest), (acc, c # cs)) \<in> measure (\<lambda>(acc, s). length s)"
    by simp
next
  fix acc :: string and c cs
  show "((c # acc, cs), (acc, c # cs)) \<in> measure (\<lambda>(acc, s). length s)"
    by simp
qed

definition splitCategory :: "string \<Rightarrow> string list" where
  "splitCategory name = splitFrom [] name"

text \<open>The inner loop of the estimator: some non-empty token of the name is in the title.\<close>

definition categoryMatches :: "string \<Rightarrow> string \<Rightarrow> bool" where
  "categoryMatches lowerTitle categoryName =
     list_ex (\<lambda>token. token \<noteq> [] \<and> str_includes lowerTitle token)
       (splitCategory (toLowerCase categoryName))"

definition estimateResaleValue ::
  "config \<Rightarrow> category_prices \<Rightarrow> string \<Rightarrow> string \<Rightarrow> string \<Rightarrow> string" where
  "estimateResaleValue cfg categoryAvgPrices priceStr title description =
     (if \<not> priceEstimationEnabled cfg then ''''
      else
        let clean = stripNonNumeric priceStr;
            lowerTitle = toLowerCase title;
            matchedCategory = find (categoryMatches lowerTitle) (map fst categoryAvgPrices);
            fromCategory =
              (case matchedCategory of
                 None \<Rightarrow> ''n/a''
               | Some name \<Rightarrow>
                   (case map_of categoryAvgPrices name of
                      Some (JNumber avg) \<Rightarrow>
                        if avg > 0 then ''$'' @ toFixed2 (avg * (1 / 2)) else ''n/a''
                    | _ \<Rightarrow> ''n/a''))
        in case parseFloat clean of
             None \<Rightarrow> fromCategory
           | Some num \<Rightarrow> if num > 0 then ''$'' @ toFixed2 (num * (1 / 2)) else fromCategory)"

section \<open>Listings, the seen-id set and the filtering loop of \<open>scrapeTerm\<close>\<close>

text \<open>
  \<^verbatim>\<open>node.listing.id\<close> as the loop reads it: the field may be missing (\<^verbatim>\<open>undefined\<close>), \<^verbatim>\<open>null\<close>
  or a string. Inside a template literal the three print as below.
\<close>

datatype jsid = IdUndefined | IdNull | IdString string

definition idText :: "jsid \<Rightarrow> string" where
  "idText i = (case i of IdUndefined \<Rightarrow> ''undefined'' | IdNull \<Rightarrow> ''null'' | IdString s \<Rightarrow> s)"

text \<open>
  A listing of the feed: \<^verbatim>\<open>id\<close>, \<^verbatim>\<open>marketplace_listing_title\<close> and
  \<^verbatim>\<open>listing_price?.formatted_amount\<close>, the last two strings when present. An edge of the
  feed has no node, a node with no listing, or a node with a listing.
\<close>

record listing =
  listing_id :: jsid
  marketplace_listing_title :: "string option"
  formatted_amount :: "string option"

datatype edge = NoNode | NodeWithoutListing | Node listing

record item =
  title :: string
  price :: string
  link :: string
  description :: string
  image :: string
  estimate :: string

text \<open>\<^verbatim>\<open>v || d\<close> on an optional string: a missing and an empty string are both falsy.\<close>

definition orDefault :: "string option \<Rightarrow> string \<Rightarrow> string" where
  "orDefault v d = (case v of None \<Rightarrow> d | Some s \<Rightarrow> if s = [] then d else s)"

text \<open>
  A JavaScript \<^verbatim>\<open>Set\<close> of ids: its elements in insertion order, none twice.
  \<^verbatim>\<open>has\<close>, \<^verbatim>\<open>add\<close> and \<^verbatim>\<open>new Set(array)\<close>.
\<close>

type_synonym idset = "jsid list"

definition set_has :: "idset \<Rightarrow> jsid \<Rightarrow> bool" where
  "set_has s x = (x \<in> set s)"

definition set_add :: "idset \<Rightarrow> jsid \<Rightarrow> idset" where
  "set_add s x = (if x \<in> set s then s else s @ [x])"

definition newSet :: "jsid list \<Rightarrow> idset" where
  "newSet xs = foldl set_add [] xs"

text \<open>The numeric price of a listing, lines 236 to 241.\<close>

definition numericPrice :: "string \<Rightarrow> rat" where
  "numericPrice priceText =
     (let clean = stripNonNumeric priceText
      in if length clean = 0 then 0
         else case parseFloat clean of None \<Rightarrow> 0 | Some num \<Rightarrow> num)"

text \<open>The conditions of the \<^verbatim>\<open>continue\<close> statements that follow the seen-id check.\<close>

definition titleHasKeyword :: "string \<Rightarrow> string list \<Rightarrow> bool" where
  "titleHasKeyword lowerTitle keywords =
     list_ex (\<lambda>k. str_includes lowerTitle (toLowerCase k)) keywords"

definition belowMinPrice :: "config \<Rightarrow> rat \<Rightarrow> bool" where
  "belowMinPrice cfg n = (case minPrice cfg of None \<Rightarrow> False | Some lo \<Rightarrow> n < lo)"

definition aboveMaxPrice :: "config \<Rightarrow> rat \<Rightarrow> bool" where
  "aboveMaxPrice cfg n = (case maxPrice cfg of None \<Rightarrow> False | Some hi \<Rightarrow> n > hi)"

definition newItem :: "listing \<Rightarrow> item" where
  "newItem l =
     \<lparr>title = orDefault (marketplace_listing_title l) ''Untitled'',
      price = orDefault (formatted_amount l) ''Unknown'',
      link = ''https://www.facebook.com/marketplace/item/'' @ idText (listing_id l),
      description = '''', image = '''', estimate = ''''\<rparr>"

text \<open>
  One round of the loop over the edges, lines 225 to 259. The state is the seen-id set
  (which the source mutates in place) and the items collected so far; every
  \<^verbatim>\<open>continue\<close> leaves both as they are.
\<close>

definition scrapeStep :: "config \<Rightarrow> idset \<times> item list \<Rightarrow> edge \<Rightarrow> idset \<times> item list" where
  "scrapeStep cfg st val =
     (case val of
        NoNode \<Rightarrow> st
      | NodeWithoutListing \<Rightarrow> st
      | Node l \<Rightarrow>
          let pastItems = fst st;
              newItems = snd st;
              i = listing_id l;
              lowerTitle = toLowerCase (orDefault (marketplace_listing_title l) ''Untitled'');
              n = numericPrice (orDefault (formatted_amount l) ''Unknown'')
          in if set_has pastItems i then st
             else if n = 0 \<and> titleHasKeyword lowerTitle (qualityExcludeKeywords cfg) then st
             else if n = 0 \<and> length (qualityIncludeKeywords cfg) > 0
                       \<and> \<not> titleHasKeyword lowerTitle (qualityIncludeKeywords cfg) then st
             else if \<not> includeFreeItems cfg \<and> n = 0 then st
             else if belowMinPrice cfg n then st
             else if aboveMaxPrice cfg n then st
             else (set_add pastItems i, newItems @ [newItem l]))"

definition scrapeLoop :: "config \<Rightarrow> idset \<times> item list \<Rightarrow> edge list \<Rightarrow> idset \<times> item list" where
  "scrapeLoop cfg st edges = foldl (scrapeStep cfg) st edges"

text \<open>The filtering stage of one call: the loop from an empty \<^verbatim>\<open>newItems\<close>.\<close>

definition filterEdges :: "config \<Rightarrow> edge list \<Rightarrow> idset \<Rightarrow> idset \<times> item list" where
  "filterEdges cfg edges pastItems = scrapeLoop cfg (pastItems, []) edges"

section \<open>\<open>scrapeTerm\<close> with its collaborators\<close>

text \<open>
  What the search page gives for a term: navigation fails (the promise rejects), the page
  has no \<^verbatim>\<open>marketplace_search\<close> data, its JSON does not parse, or it holds a feed. What
  \<^verbatim>\<open>fetchListingDetails\<close> gives for a link is a description and an image, or nothing when
  the fetch failed (the function catches that itself). The hour and the time stamp are
  what \<^verbatim>\<open>new Date()\<close> gives when the term's items are notified.
\<close>

datatype page_result = GotoFails | NoSearchData | BadJson | Feed "edge list"

datatype js_error = PageError | DetailPageError | FsError | ParseError | LaunchError | CloseError

record term_env =
  page :: page_result
  detailPageOk :: bool
  details :: "string \<Rightarrow> (string \<times> string) option"
  hour :: int
  stamp :: string

definition enrich ::
  "config \<Rightarrow> category_prices \<Rightarrow> (string \<Rightarrow> (string \<times> string) option) \<Rightarrow> item \<Rightarrow> item" where
  "enrich cfg cats fetch it =
     (let d = (case fetch (link it) of None \<Rightarrow> ('''', '''') | Some r \<Rightarrow> r)
      in it\<lparr>description := fst d, image := snd d,
             estimate := estimateResaleValue cfg cats (price it) (title it) (fst d)\<rparr>)"

definition estimateOnly :: "config \<Rightarrow> category_prices \<Rightarrow> item \<Rightarrow> item" where
  "estimateOnly cfg cats it =
     it\<lparr>estimate := estimateResaleValue cfg cats (price it) (title it) ''''\<rparr>"

text \<open>
  The result is the seen-id set after the call, and the items or the exception. An
  exception of the detail page comes after the loop: the set keeps what the loop added.
\<close>

definition scrapeTerm ::
  "config \<Rightarrow> category_prices \<Rightarrow> term_env \<Rightarrow> idset \<Rightarrow> idset \<times> (js_error + item list)" where
  "scrapeTerm cfg cats env pastItems =
     (case page env of
        GotoFails \<Rightarrow> (pastItems, Inl PageError)
      | NoSearchData \<Rightarrow> (pastItems, Inr [])
      | BadJson \<Rightarrow> (pastItems, Inr [])
      | Feed edges \<Rightarrow>
          let r = filterEdges cfg edges pastItems;
              newItems = snd r
          in if fetchListingDetails cfg \<and> length newItems > 0
             then if detailPageOk env
                  then (fst r, Inr (map (enrich cfg cats (details env)) newItems))
                  else (fst r, Inl DetailPageError)
             else (fst r, Inr (map (estimateOnly cfg cats) newItems)))"

section \<open>Persisted state and \<open>notify\<close>\<close>

text \<open>
  The two files of the notifier, the mails handed to \<^verbatim>\<open>transporter.sendMail\<close> and the
  calls of \<^verbatim>\<open>savePastItems\<close>. \<^verbatim>\<open>pastItems.json\<close> is missing, cannot be read, holds something
  from which \<^verbatim>\<open>new Set(JSON.parse(..).pastItems)\<close> throws, or holds the JSON of an object
  with the array \<^verbatim>\<open>pastItems\<close>. \<^verbatim>\<open>bufferedMessages.txt\<close> is missing or holds a text.
  \<open>writable\<close> says whether \<^verbatim>\<open>writeFileSync\<close> and \<^verbatim>\<open>appendFileSync\<close> succeed.
\<close>

datatype past_file = PastMissing | PastUnreadable | PastMalformed | PastJson "jsid list"

record mail =
  mail_from :: string
  mail_to :: string
  subject :: string
  text_body :: string
  html_body :: string

record sys =
  pastItemsFile :: past_file
  bufferFile :: "string option"
  writable :: bool
  outbox :: "mail list"
  saveCalls :: "idset list"

text \<open>\<^verbatim>\<open>JSON.stringify\<close> writes an \<^verbatim>\<open>undefined\<close> array element as \<^verbatim>\<open>null\<close>.\<close>

definition jsonId :: "jsid \<Rightarrow> jsid" where
  "jsonId i = (case i of IdUndefined \<Rightarrow> IdNull | IdNull \<Rightarrow> IdNull | IdString s \<Rightarrow> IdString s)"

text \<open>The body of the \<^verbatim>\<open>try\<close> of \<open>loadPastItems\<close>, and the function with its \<^verbatim>\<open>catch\<close>.\<close>

definition tryLoadPastItems :: "sys \<Rightarrow> js_error + sys \<times> idset" where
  "tryLoadPastItems s =
     (case (if pastItemsFile s = PastMissing
            then (if writable s then Inr (s\<lparr>pastItemsFile := PastJson []\<rparr>) else Inl FsError)
            else Inr s) of
        Inl e \<Rightarrow> Inl e
      | Inr s1 \<Rightarrow>
          (case pastItemsFile s1 of
             PastJson xs \<Rightarrow> Inr (s1, newSet xs)
           | PastMalformed \<Rightarrow> Inl ParseError
           | PastUnreadable \<Rightarrow> Inl FsError
           | PastMissing \<Rightarrow> Inl FsError))"

definition loadPastItems :: "sys \<Rightarrow> sys \<times> idset" where
  "loadPastItems s = (case tryLoadPastItems s of Inl e \<Rightarrow> (s, []) | Inr r \<Rightarrow> r)"

definition savePastItems :: "idset \<Rightarrow> sys \<Rightarrow> sys" where
  "savePastItems ids s =
     (let s1 = s\<lparr>saveCalls := saveCalls s @ [ids]\<rparr>
      in if writable s then s1\<lparr>pastItemsFile := PastJson (map jsonId ids)\<rparr> else s1)"

text \<open>\<^verbatim>\<open>parts.join(sep)\<close> and \<^verbatim>\<open>s.replace(/\n/g, '<br>')\<close>.\<close>

fun joinWith :: "string \<Rightarrow> string list \<Rightarrow> string" where
  "joinWith sep [] = []"
| "joinWith sep [x] = x"
| "joinWith sep (x # y # ys) = x @ sep @ joinWith sep (y # ys)"

definition replaceNewlines :: "string \<Rightarrow> string" where
  "replaceNewlines s = concat (map (\<lambda>c. if c = CHR 0x0A then ''<br>'' else [c]) s)"

text \<open>The en dash of the plain-text body, in UTF-8.\<close>

definition enDash :: string where
  "enDash = [CHR 0xE2, CHR 0x80, CHR 0x93]"

definition htmlItem :: "item \<Rightarrow> string" where
  \<open>htmlItem it =
     ''<div style="margin-bottom:1em;">\<newline>      ''
     @ (if image it \<noteq> [] then ''<img src="'' @ image it
          @ ''" alt="Image" style="max-width:200px; display:block; margin-bottom:0.5em;">'' else [])
     @ ''\<newline>      <strong>'' @ title it @ ''</strong><br>''
     @ ''\<newline>      <span>Price: '' @ price it @ ''</span><br>''
     @ ''\<newline>      ''
     @ (if estimate it \<noteq> [] then ''<span>Estimated resale value: '' @ estimate it @ ''</span><br>''
        else [])
     @ ''\<newline>      ''
     @ (if description it \<noteq> [] then ''<span>'' @ replaceNewlines (description it) @ ''</span><br>''
        else [])
     @ ''\<newline>      <a href="'' @ link it @ ''">View on Facebook</a>''
     @ ''\<newline>    </div>''\<close>

definition bufferLine :: "item \<Rightarrow> string" where
  "bufferLine it = title it @ '' - '' @ price it @ '' - '' @ link it"

definition textLine :: "item \<Rightarrow> string" where
  "textLine it = title it @ '' '' @ enDash @ '' '' @ price it @ ''\<newline>'' @ link it"

definition bufferContent :: "string \<Rightarrow> string \<Rightarrow> item list \<Rightarrow> string" where
  \<open>bufferContent now searchTerm items =
     ''\<newline>\<newline>['' @ now @ ''] Results for "'' @ searchTerm @ ''":\<newline>''
     @ joinWith ''\<newline>'' (map bufferLine items)\<close>

definition subjectLine :: "string \<Rightarrow> item list \<Rightarrow> string" where
  \<open>subjectLine searchTerm items =
     show_nat (length items) @ '' new result'' @ (if length items > 1 then ''s'' else [])
     @ '' for "'' @ searchTerm @ ''"''\<close>

text \<open>\<^verbatim>\<open>fs.appendFileSync(BUFFER_FILE, content)\<close>: creates the file when it is missing.\<close>

definition appendBuffer :: "string \<Rightarrow> sys \<Rightarrow> js_error + sys" where
  "appendBuffer content s =
     (if writable s
      then Inr (s\<lparr>bufferFile := Some ((case bufferFile s of None \<Rightarrow> [] | Some b \<Rightarrow> b) @ content)\<rparr>)
      else Inl FsError)"

text \<open>
  Lines 312 to 319: the start of the text body, and the buffer file truncated when it
  exists.
\<close>

definition flushBuffer :: "sys \<Rightarrow> js_error + string \<times> sys" where
  "flushBuffer s =
     (case bufferFile s of
        None \<Rightarrow> Inr ([], s)
      | Some buffer \<Rightarrow>
          if writable s
          then Inr (if length (trim buffer) > 0
                    then ''Previous notifications:\<newline>'' @ buffer @ ''\<newline>\<newline>'' else [],
                    s\<lparr>bufferFile := Some []\<rparr>)
          else Inl FsError)"

text \<open>
  \<open>notify\<close>, lines 280 to 340, at the hour \<open>nowHour\<close> and the time stamp \<open>now\<close>. An exception
  of the file system leaves \<open>notify\<close> before anything else has happened.
\<close>

definition notify ::
  "config \<Rightarrow> int \<Rightarrow> string \<Rightarrow> string \<Rightarrow> item list \<Rightarrow> sys \<Rightarrow> js_error + sys" where
  "notify cfg nowHour now searchTerm items s =
     (if length items = 0 then Inr s
      else
        let withinWindow = (nowHour \<ge> activeStart cfg \<and> nowHour \<le> activeEnd cfg);
            htmlBody = concat (map htmlItem items)
        in if \<not> withinWindow then appendBuffer (bufferContent now searchTerm items) s
           else
             case flushBuffer s of
               Inl e \<Rightarrow> Inl e
             | Inr r \<Rightarrow>
                 let textBody = fst r @ joinWith ''\<newline>\<newline>'' (map textLine items);
                     subj = subjectLine searchTerm items
                 in Inr ((snd r)\<lparr>outbox := outbox (snd r) @
                      map (\<lambda>recipient.
                             \<lparr>mail_from = sender cfg, mail_to = recipient, subject = subj,
                              text_body = textBody, html_body = htmlBody\<rparr>)
                          (recipients cfg)\<rparr>))"

section \<open>\<open>run\<close>\<close>

text \<open>
  The browser of a run either launches and closes or fails to; \<open>termEnv i\<close> is what the
  \<open>i\<close>-th term of the run meets. The loop over the terms catches what \<open>scrapeTerm\<close> and
  \<open>notify\<close> throw.
\<close>

record run_env =
  launchOk :: bool
  closeOk :: bool
  termEnv :: "nat \<Rightarrow> term_env"

fun processTerms ::
  "config \<Rightarrow> category_prices \<Rightarrow> (nat \<Rightarrow> term_env) \<Rightarrow> nat \<Rightarrow> string list \<Rightarrow> idset \<times> sys
     \<Rightarrow> idset \<times> sys" where
  "processTerms cfg cats envOf i [] st = st"
| "processTerms cfg cats envOf i (searchTerm # rest) st =
     (let env = envOf i;
          r = scrapeTerm cfg cats env (fst st);
          s' = (case snd r of
                  Inl e \<Rightarrow> snd st
                | Inr items \<Rightarrow>
                    if length items > 0
                    then (case notify cfg (hour env) (stamp env) searchTerm items (snd st) of
                            Inl e \<Rightarrow> snd st
                          | Inr s2 \<Rightarrow> s2)
                    else snd st)
      in processTerms cfg cats envOf (Suc i) rest (fst r, s'))"

text \<open>
  The result of a run: the state it leaves, and the exception when the promise rejects.
\<close>

definition run :: "config \<Rightarrow> category_prices \<Rightarrow> run_env \<Rightarrow> sys \<Rightarrow> sys \<times> js_error option" where
  "run cfg cats renv s0 =
     (let l = loadPastItems s0
      in if \<not> launchOk renv then (fst l, Some LaunchError)
         else
           let r = processTerms cfg cats (termEnv renv) 0 (searchTerms cfg) (snd l, fst l)
           in if \<not> closeOk renv then (snd r, Some CloseError)
              else (savePastItems (fst r) (snd r), None))"

section \<open>Derived notions\<close>

text \<open>
  A listing passes the filters when none of the five \<^verbatim>\<open>continue\<close> conditions after the
  seen-id check holds for it: the two keyword rules, the free-item rule and the two price
  bounds, in the order of the source.
\<close>

definition passesFilters :: "config \<Rightarrow> listing \<Rightarrow> bool" where
  "passesFilters cfg l =
     (let lowerTitle = toLowerCase (orDefault (marketplace_listing_title l) ''Untitled'');
          n = numericPrice (orDefault (formatted_amount l) ''Unknown'')
      in \<not> (n = 0 \<and> titleHasKeyword lowerTitle (qualityExcludeKeywords cfg))
         \<and> \<not> (n = 0 \<and> length (qualityIncludeKeywords cfg) > 0
                \<and> \<not> titleHasKeyword lowerTitle (qualityIncludeKeywords cfg))
         \<and> \<not> (\<not> includeFreeItems cfg \<and> n = 0)
         \<and> \<not> belowMinPrice cfg n
         \<and> \<not> aboveMaxPrice cfg n)"

text \<open>The \<^verbatim>\<open>CONFIG\<close> object as the source ships it (the sender comes from the environment).\<close>

definition defaultConfig :: config where
  "defaultConfig =
     \<lparr>searchTerms = [''phone''], minPrice = None, maxPrice = None, includeFreeItems = True,
      activeStart = 8, activeEnd = 22, sender = '''',
      recipients = [''kfcoleman77@gmail.com'', ''mtopyan@gmail.com''],
      fetchListingDetails = True, priceEstimationEnabled = True,
      qualityIncludeKeywords = [], qualityExcludeKeywords = []\<rparr>"

text \<open>A listing with a string id, a title and a price text, for the examples below.\<close>

definition sampleListing :: "string \<Rightarrow> string \<Rightarrow> string \<Rightarrow> listing" where
  "sampleListing i t p =
     \<lparr>listing_id = IdString i, marketplace_listing_title = Some t, formatted_amount = Some p\<rparr>"

text \<open>
  A fresh installation (no file yet, a writable directory), a configuration with two search
  terms and no detail fetch, and a run whose first term fails to load while the second
  finds one listing at noon: the examples of the theorems on \<open>notify\<close> and \<open>run\<close>.
\<close>

definition freshSys :: sys where
  "freshSys = \<lparr>pastItemsFile = PastMissing, bufferFile = None, writable = True, outbox = [],
     saveCalls = []\<rparr>"

definition twoTermConfig :: config where
  "twoTermConfig = defaultConfig\<lparr>searchTerms := [''phone'', ''tablet''], fetchListingDetails := False\<rparr>"

definition firstTermFails :: run_env where
  "firstTermFails =
     \<lparr>launchOk = True, closeOk = True,
      termEnv = (\<lambda>i. \<lparr>page = (if i = 0 then GotoFails
                               else Feed [Node (sampleListing ''42'' ''Tablet'' ''$30'')]),
                      detailPageOk = True, details = (\<lambda>l. None), hour = 12,
                      stamp = ''11/2/2026, 12:00:00 PM''\<rparr>)\<rparr>"

section \<open>Lemmas on the filtering loop and the seen-id set\<close>

text \<open>The definitions that evaluate a price text, a keyword test and the filter rules.\<close>

lemmas price_eval =
  numericPrice_def stripNonNumeric_def isDigit_def parseFloat_def digitsVal_def digitVal_def Let_def

lemmas keyword_eval = titleHasKeyword_def toLowerCase_def toLowerChar_def

lemmas filter_eval =
  passesFilters_def orDefault_def belowMinPrice_def aboveMaxPrice_def sampleListing_def
  defaultConfig_def keyword_eval

lemma scrapeStep_Node:
  "scrapeStep cfg st (Node l) =
     (if \<not> set_has (fst st) (listing_id l) \<and> passesFilters cfg l
      then (set_add (fst st) (listing_id l), snd st @ [newItem l]) else st)"
  by (auto simp: scrapeStep_def passesFilters_def Let_def)

lemma scrapeStep_skip [simp]:
  "scrapeStep cfg st NoNode = st" "scrapeStep cfg st NodeWithoutListing = st"
  by (simp_all add: scrapeStep_def)

lemma numericPrice_nonneg: "0 \<le> numericPrice p"
  by (simp add: numericPrice_def parseFloat_def Let_def split: option.splits)

lemma scrapeLoop_Nil [simp]: "scrapeLoop cfg st [] = st"
  by (simp add: scrapeLoop_def)

lemma scrapeLoop_Cons [simp]:
  "scrapeLoop cfg st (e # es) = scrapeLoop cfg (scrapeStep cfg st e) es"
  by (simp add: scrapeLoop_def)

lemma scrapeLoop_append: "scrapeLoop cfg st (xs @ ys) = scrapeLoop cfg (scrapeLoop cfg st xs) ys"
  by (simp add: scrapeLoop_def)

lemma scrapeStep_grows: "set (fst st) \<subseteq> set (fst (scrapeStep cfg st e))"
  by (cases e) (auto simp: scrapeStep_Node set_add_def)

lemma scrapeLoop_grows: "set (fst st) \<subseteq> set (fst (scrapeLoop cfg st es))"
proof (induction es arbitrary: st)
  case Nil
  show ?case by simp
next
  case (Cons e es)
  have "set (fst st) \<subseteq> set (fst (scrapeStep cfg st e))"
    by (rule scrapeStep_grows)
  also have "\<dots> \<subseteq> set (fst (scrapeLoop cfg (scrapeStep cfg st e) es))"
    by (rule Cons.IH)
  finally show ?case by simp
qed

lemma scrapeStep_seen:
  "set_has (fst st) (listing_id l) \<Longrightarrow> scrapeStep cfg st (Node l) = st"
  by (simp add: scrapeStep_Node)

lemma scrapeLoop_drop_seen:
  assumes "set_has (fst st) (listing_id l)"
  shows "scrapeLoop cfg st (xs @ Node l # ys) = scrapeLoop cfg st (xs @ ys)"
proof -
  from assms have "listing_id l \<in> set (fst (scrapeLoop cfg st xs))"
    using scrapeLoop_grows [of st cfg xs] by (auto simp: set_has_def)
  then have "scrapeStep cfg (scrapeLoop cfg st xs) (Node l) = scrapeLoop cfg st xs"
    by (simp add: scrapeStep_seen set_has_def)
  then show ?thesis
    by (simp add: scrapeLoop_append)
qed

lemma scrapeStep_out:
  "\<exists>zs. snd (scrapeStep cfg st e) = snd st @ zs \<and> (zs = [] \<longrightarrow> scrapeStep cfg st e = st)"
  by (cases e) (auto simp: scrapeStep_Node)

lemma scrapeLoop_out:
  "\<exists>zs. snd (scrapeLoop cfg st es) = snd st @ zs \<and> (zs = [] \<longrightarrow> scrapeLoop cfg st es = st)"
proof (induction es arbitrary: st)
  case Nil
  show ?case by simp
next
  case (Cons e es)
  obtain zs where zs: "snd (scrapeStep cfg st e) = snd st @ zs" "zs = [] \<longrightarrow> scrapeStep cfg st e = st"
    using scrapeStep_out by blast
  obtain ws where ws: "snd (scrapeLoop cfg (scrapeStep cfg st e) es) = snd (scrapeStep cfg st e) @ ws"
      "ws = [] \<longrightarrow> scrapeLoop cfg (scrapeStep cfg st e) es = scrapeStep cfg st e"
    using Cons.IH by blast
  from zs ws have "snd (scrapeLoop cfg st (e # es)) = snd st @ (zs @ ws)"
    by simp
  moreover have "zs @ ws = [] \<longrightarrow> scrapeLoop cfg st (e # es) = st"
  proof
    assume "zs @ ws = []"
    then have "zs = []" "ws = []" by simp_all
    with zs(2) ws(2) show "scrapeLoop cfg st (e # es) = st" by simp
  qed
  ultimately show ?case by blast
qed

lemma scrapeLoop_frame:
  "snd (scrapeLoop cfg st es) = snd st \<Longrightarrow> scrapeLoop cfg st es = st"
  using scrapeLoop_out [of cfg st es] by auto

lemma passed_is_seen:
  assumes "set_has (fst st) (listing_id l) \<or> passesFilters cfg l"
  shows "set_has (fst (scrapeLoop cfg st (xs @ Node l # ys))) (listing_id l)"
proof -
  let ?s = "scrapeLoop cfg st xs"
  have "set (fst st) \<subseteq> set (fst ?s)"
    by (rule scrapeLoop_grows)
  with assms have "set_has (fst ?s) (listing_id l) \<or> passesFilters cfg l"
    by (auto simp: set_has_def)
  then have "listing_id l \<in> set (fst (scrapeStep cfg ?s (Node l)))"
    by (auto simp: scrapeStep_Node set_has_def set_add_def)
  then have "listing_id l \<in> set (fst (scrapeLoop cfg (scrapeStep cfg ?s (Node l)) ys))"
    using scrapeLoop_grows by blast
  then show ?thesis
    by (simp add: scrapeLoop_append set_has_def)
qed

lemma set_foldl_set_add: "set (foldl set_add acc xs) = set acc \<union> set xs"
  by (induction xs arbitrary: acc) (auto simp: set_add_def)

lemma set_newSet: "set (newSet xs) = set xs"
  by (simp add: newSet_def set_foldl_set_add)

lemma load_after_save:
  "writable s \<Longrightarrow>
   loadPastItems (savePastItems ids s) = (savePastItems ids s, newSet (map jsonId ids))"
  by (simp add: loadPastItems_def savePastItems_def tryLoadPastItems_def Let_def)

lemma load_of_file: "pastItemsFile s = PastJson xs \<Longrightarrow> loadPastItems s = (s, newSet xs)"
  by (simp add: loadPastItems_def tryLoadPastItems_def)

lemma saved_file: "writable s \<Longrightarrow> pastItemsFile (savePastItems ids s) = PastJson (map jsonId ids)"
  by (simp add: savePastItems_def Let_def)

lemma reloaded_has_later:
  assumes "set_has ids i" "i \<noteq> IdUndefined" "writable s"
    and "pastItemsFile s' = pastItemsFile (savePastItems ids s)"
  shows "set_has (snd (loadPastItems s')) i"
proof -
  from assms(2) have "jsonId i = i"
    by (cases i) (simp_all add: jsonId_def)
  with assms(1) have "i \<in> jsonId ` set ids"
    by (force simp: set_has_def)
  moreover from assms(3,4) have "loadPastItems s' = (s', newSet (map jsonId ids))"
    by (simp add: load_of_file saved_file)
  ultimately show ?thesis
    by (simp add: set_has_def set_newSet)
qed

section \<open>Deduplication\<close>

text \<open>
  Claim C1 says that of two occurrences of an id in two calls of the filtering stage the
  second never reaches the output. The loop adds an id to the seen-id set only when it
  accepts the record, so a rejected first occurrence is not remembered: with \<open>maxPrice\<close> 20
  and an empty set, listing 42 at $50 is rejected and leaves the set empty, and the next
  call, which finds it at $15, emits it. Across runs, a listing without an id is emitted
  again after its set was saved and loaded, since \<^verbatim>\<open>JSON.stringify\<close> writes \<^verbatim>\<open>undefined\<close> as
  \<^verbatim>\<open>null\<close>, and listing 42 is emitted again when the file could not be written.
\<close>

theorem second_occurrence_is_emitted_after_rejection:
  "filterEdges (defaultConfig\<lparr>maxPrice := Some 20\<rparr>) [Node (sampleListing ''42'' ''Phone'' ''$50'')] []
     = ([], [])
   \<and> filterEdges (defaultConfig\<lparr>maxPrice := Some 20\<rparr>) [Node (sampleListing ''42'' ''Phone'' ''$15'')]
       (fst (filterEdges (defaultConfig\<lparr>maxPrice := Some 20\<rparr>)
               [Node (sampleListing ''42'' ''Phone'' ''$50'')] []))
     = ([IdString ''42''],
        [\<lparr>title = ''Phone'', price = ''$15'',
          link = ''https://www.facebook.com/marketplace/item/42'',
          description = '''', image = '''', estimate = ''''\<rparr>])
   \<and> filterEdges defaultConfig
       [Node \<lparr>listing_id = IdUndefined, marketplace_listing_title = Some ''Phone'',
              formatted_amount = Some ''$5''\<rparr>]
       (snd (loadPastItems (savePastItems
          (fst (filterEdges defaultConfig
                  [Node \<lparr>listing_id = IdUndefined, marketplace_listing_title = Some ''Phone'',
                         formatted_amount = Some ''$5''\<rparr>] []))
          freshSys)))
     = ([IdNull, IdUndefined],
        [\<lparr>title = ''Phone'', price = ''$5'',
          link = ''https://www.facebook.com/marketplace/item/undefined'',
          description = '''', image = '''', estimate = ''''\<rparr>])
   \<and> filterEdges defaultConfig [Node (sampleListing ''42'' ''Phone'' ''$15'')]
       (snd (loadPastItems (savePastItems
          (fst (filterEdges defaultConfig [Node (sampleListing ''42'' ''Phone'' ''$15'')] []))
          (freshSys\<lparr>writable := False\<rparr>))))
     = ([IdString ''42''],
        [\<lparr>title = ''Phone'', price = ''$15'',
          link = ''https://www.facebook.com/marketplace/item/42'',
          description = '''', image = '''', estimate = ''''\<rparr>])"
  by (simp add: filterEdges_def scrapeStep_Node filter_eval price_eval set_has_def set_add_def
      newItem_def idText_def loadPastItems_def tryLoadPastItems_def savePastItems_def freshSys_def
      newSet_def jsonId_def)

text \<open>
  Claim C1, amended. A record whose id is in the seen-id set when it reaches the filtering
  stage is skipped, whatever the configuration, its title and its price are: the step
  leaves the set and the collected items as they were. Let a first record \<open>l1\<close> of a call
  be seen already or pass the filters (it is then accepted). A later record \<open>l2\<close> with the
  same id contributes nothing: the call gives the same set and the same items as without
  it, (i) later in the same feed, (ii) in a later call of the same run, which works on the
  set the first call left, and (iii) in a call of a later run, which works on the set that
  \<open>loadPastItems\<close> reads from a file holding what \<open>savePastItems\<close> wrote, for an id that is
  present (not \<^verbatim>\<open>undefined\<close>) and a file that could be written. When the first record is
  neither seen nor passes the filters, it leaves the set as it was, and a record with the
  same id that passes the filters of the next call is emitted there and its id added.
\<close>

theorem seen_id_skipped_and_never_renotified:
  "(set_has p (listing_id l) \<longrightarrow> scrapeStep cfg (p, ns) (Node l) = (p, ns))
   \<and> (listing_id l2 = listing_id l1 \<and> (set_has p0 (listing_id l1) \<or> passesFilters cfg1 l1) \<longrightarrow>
        filterEdges cfg1 (pre @ Node l1 # mid @ Node l2 # post) p0
          = filterEdges cfg1 (pre @ Node l1 # mid @ post) p0
      \<and> filterEdges cfg2 (xs @ Node l2 # ys) (fst (filterEdges cfg1 (pre @ Node l1 # mid) p0))
          = filterEdges cfg2 (xs @ ys) (fst (filterEdges cfg1 (pre @ Node l1 # mid) p0))
      \<and> (listing_id l1 \<noteq> IdUndefined \<and> writable s
            \<and> pastItemsFile s' = pastItemsFile
                 (savePastItems (fst (filterEdges cfg1 (pre @ Node l1 # mid) p0)) s) \<longrightarrow>
           filterEdges cfg2 (xs @ Node l2 # ys) (snd (loadPastItems s'))
             = filterEdges cfg2 (xs @ ys) (snd (loadPastItems s'))))
   \<and> (listing_id l2 = listing_id l1 \<and> \<not> set_has p0 (listing_id l1)
        \<and> \<not> passesFilters cfg1 l1 \<and> passesFilters cfg2 l2 \<longrightarrow>
        filterEdges cfg1 [Node l1] p0 = (p0, [])
        \<and> filterEdges cfg2 [Node l2] (fst (filterEdges cfg1 [Node l1] p0))
            = (set_add p0 (listing_id l2), [newItem l2]))"
proof -
  have skip: "set_has p (listing_id l) \<Longrightarrow> scrapeStep cfg (p, ns) (Node l) = (p, ns)"
    by (simp add: scrapeStep_seen)
  have again: "listing_id l2 = listing_id l1 \<and> \<not> set_has p0 (listing_id l1)
        \<and> \<not> passesFilters cfg1 l1 \<and> passesFilters cfg2 l2 \<longrightarrow>
        filterEdges cfg1 [Node l1] p0 = (p0, [])
        \<and> filterEdges cfg2 [Node l2] (fst (filterEdges cfg1 [Node l1] p0))
            = (set_add p0 (listing_id l2), [newItem l2])"
    by (simp add: filterEdges_def scrapeStep_Node)
  {
    assume same: "listing_id l2 = listing_id l1"
      and "set_has p0 (listing_id l1) \<or> passesFilters cfg1 l1"
    then have pass: "set_has (fst (p0, [])) (listing_id l1) \<or> passesFilters cfg1 l1"
      by simp
    let ?p1 = "fst (filterEdges cfg1 (pre @ Node l1 # mid) p0)"
    have seen: "set_has ?p1 (listing_id l2)"
      unfolding filterEdges_def same by (rule passed_is_seen [OF pass])
    have "set_has (fst (scrapeLoop cfg1 (p0, []) (pre @ Node l1 # mid))) (listing_id l2)"
      using seen by (simp add: filterEdges_def)
    then have "scrapeLoop cfg1 (scrapeLoop cfg1 (p0, []) (pre @ Node l1 # mid)) ([] @ Node l2 # post)
        = scrapeLoop cfg1 (scrapeLoop cfg1 (p0, []) (pre @ Node l1 # mid)) ([] @ post)"
      by (rule scrapeLoop_drop_seen)
    then have call: "filterEdges cfg1 (pre @ Node l1 # mid @ Node l2 # post) p0
          = filterEdges cfg1 (pre @ Node l1 # mid @ post) p0"
      using scrapeLoop_append [of cfg1 "(p0, [])" "pre @ Node l1 # mid" "Node l2 # post"]
        scrapeLoop_append [of cfg1 "(p0, [])" "pre @ Node l1 # mid" "post"]
      by (simp add: filterEdges_def)
    have run: "filterEdges cfg2 (xs @ Node l2 # ys) ?p1 = filterEdges cfg2 (xs @ ys) ?p1"
      unfolding filterEdges_def [of cfg2]
      using seen by (intro scrapeLoop_drop_seen) simp
    have runs: "filterEdges cfg2 (xs @ Node l2 # ys) (snd (loadPastItems s'))
             = filterEdges cfg2 (xs @ ys) (snd (loadPastItems s'))"
      if "listing_id l1 \<noteq> IdUndefined" "writable s"
        "pastItemsFile s' = pastItemsFile (savePastItems ?p1 s)"
      unfolding filterEdges_def [of cfg2]
      using reloaded_has_later [OF seen _ that(2,3)] that(1) same
      by (intro scrapeLoop_drop_seen) simp
    note call run runs
  }
  with skip again show ?thesis by blast
qed

theorem seen_id_skipped_and_never_renotified_witness:
  "set_has [IdString ''42''] (listing_id (sampleListing ''42'' ''Phone'' ''$15''))
   \<and> scrapeStep defaultConfig ([IdString ''42''], []) (Node (sampleListing ''42'' ''Phone'' ''$15''))
       = ([IdString ''42''], [])
   \<and> passesFilters defaultConfig (sampleListing ''42'' ''Phone'' ''$15'')
   \<and> writable freshSys
   \<and> filterEdges defaultConfig [Node (sampleListing ''42'' ''Phone'' ''$15'')] []
       = ([IdString ''42''], [newItem (sampleListing ''42'' ''Phone'' ''$15'')])
   \<and> filterEdges defaultConfig [Node (sampleListing ''42'' ''Phone'' ''$15'')]
        (snd (loadPastItems (savePastItems
           (fst (filterEdges defaultConfig [Node (sampleListing ''42'' ''Phone'' ''$15'')] []))
           freshSys)))
       = ([IdString ''42''], [])
   \<and> \<not> set_has [] (listing_id (sampleListing ''42'' ''Phone'' ''$50''))
   \<and> \<not> passesFilters (defaultConfig\<lparr>maxPrice := Some 20\<rparr>) (sampleListing ''42'' ''Phone'' ''$50'')
   \<and> passesFilters (defaultConfig\<lparr>maxPrice := Some 20\<rparr>) (sampleListing ''42'' ''Phone'' ''$15'')
   \<and> filterEdges (defaultConfig\<lparr>maxPrice := Some 20\<rparr>) [Node (sampleListing ''42'' ''Phone'' ''$15'')]
        (fst (filterEdges (defaultConfig\<lparr>maxPrice := Some 20\<rparr>)
                [Node (sampleListing ''42'' ''Phone'' ''$50'')] []))
       = ([IdString ''42''], [newItem (sampleListing ''42'' ''Phone'' ''$15'')])"
proof -
  let ?l = "sampleListing ''42'' ''Phone'' ''$15''"
  let ?l50 = "sampleListing ''42'' ''Phone'' ''$50''"
  let ?c = "defaultConfig\<lparr>maxPrice := Some 20\<rparr>"
  let ?s = "freshSys"
  let ?s' = "savePastItems (fst (filterEdges defaultConfig ([] @ Node ?l # []) [])) freshSys"
  have h1: "set_has [IdString ''42''] (listing_id ?l)"
    by (simp add: set_has_def sampleListing_def)
  have h2: "passesFilters defaultConfig ?l"
    by (simp add: filter_eval price_eval)
  have h3: "listing_id ?l \<noteq> IdUndefined" "writable ?s" "listing_id ?l = listing_id ?l"
    "pastItemsFile ?s' = pastItemsFile ?s'"
    by (simp_all add: sampleListing_def freshSys_def)
  have h4: "listing_id ?l = listing_id ?l50" "\<not> set_has [] (listing_id ?l50)"
    by (simp_all add: sampleListing_def set_has_def)
  have h5: "\<not> passesFilters ?c ?l50" "passesFilters ?c ?l"
    by (simp_all add: filter_eval price_eval)
  have e1: "filterEdges defaultConfig [Node ?l] [] = ([IdString ''42''], [newItem ?l])"
    using h2 by (simp add: filterEdges_def scrapeStep_Node set_has_def set_add_def sampleListing_def)
  have e3: "filterEdges defaultConfig [] p = (p, [])" for p
    by (simp add: filterEdges_def)
  have i: "set_add [] (listing_id ?l) = [IdString ''42'']"
    "set_add [] (listing_id ?l50) = [IdString ''42'']"
    by (simp_all add: set_add_def sampleListing_def)
  from seen_id_skipped_and_never_renotified [where p = "[IdString ''42'']" and l = ?l
      and cfg = defaultConfig and ns = "[]" and ?l1.0 = ?l and ?l2.0 = ?l and ?p0.0 = "[]"
      and ?cfg1.0 = defaultConfig and ?cfg2.0 = defaultConfig and pre = "[]" and mid = "[]"
      and post = "[]" and xs = "[]" and ys = "[]" and s = ?s and s' = ?s'] h1 h2 h3
  have a: "scrapeStep defaultConfig ([IdString ''42''], []) (Node ?l) = ([IdString ''42''], [])"
    "filterEdges defaultConfig [Node ?l]
        (snd (loadPastItems (savePastItems (fst (filterEdges defaultConfig [Node ?l] [])) freshSys)))
       = filterEdges defaultConfig []
        (snd (loadPastItems (savePastItems (fst (filterEdges defaultConfig [Node ?l] [])) freshSys)))"
    by simp_all
  from a(2) have a2: "filterEdges defaultConfig [Node ?l]
        (snd (loadPastItems (savePastItems (fst (filterEdges defaultConfig [Node ?l] [])) freshSys)))
       = ([IdString ''42''], [])"
    by (simp add: e1 e3 load_after_save h3(2) newSet_def set_add_def jsonId_def)
  note again = seen_id_skipped_and_never_renotified [where ?l1.0 = ?l50 and ?l2.0 = ?l and ?p0.0 = "[]" and ?cfg1.0 = ?c
      and ?cfg2.0 = ?c, THEN conjunct2, THEN conjunct2]
  from again h4 h5
  have "filterEdges ?c [Node ?l] (fst (filterEdges ?c [Node ?l50] []))
       = (set_add [] (listing_id ?l), [newItem ?l])"
    by blast
  then have b: "filterEdges ?c [Node ?l] (fst (filterEdges ?c [Node ?l50] []))
       = ([IdString ''42''], [newItem ?l])"
    by (simp only: i)
  from h1 a(1) h2 h3(2) e1 a2 h4(2) h5 b show ?thesis
    by (intro conjI)
qed

section \<open>Keyword rules\<close>

text \<open>
  Claim C5. The keyword rules look at free listings only. A listing whose numeric price is
  0 and whose title contains an exclude keyword (case-insensitively) is rejected whatever
  \<open>includeFreeItems\<close> and the other settings are, and so is a free listing that contains
  none of a non-empty list of include keywords. A listing whose numeric price is not 0 is
  treated the same whatever the two keyword lists are. With \<open>excludeKeywords = ["broken"]\<close>
  the free listing "Broken Phone" is rejected for both values of \<open>includeFreeItems\<close>, and
  the listing "Broken Phone" at $5 is accepted.
\<close>

theorem keyword_rules_only_for_free_listings:
  "(numericPrice (orDefault (formatted_amount l) ''Unknown'') = 0
      \<and> titleHasKeyword (toLowerCase (orDefault (marketplace_listing_title l) ''Untitled''))
            (qualityExcludeKeywords cfg)
      \<longrightarrow> scrapeStep cfg st (Node l) = st)
   \<and> (numericPrice (orDefault (formatted_amount l) ''Unknown'') = 0
      \<and> qualityIncludeKeywords cfg \<noteq> []
      \<and> \<not> titleHasKeyword (toLowerCase (orDefault (marketplace_listing_title l) ''Untitled''))
            (qualityIncludeKeywords cfg)
      \<longrightarrow> scrapeStep cfg st (Node l) = st)
   \<and> (numericPrice (orDefault (formatted_amount l) ''Unknown'') \<noteq> 0
      \<longrightarrow> scrapeStep (cfg\<lparr>qualityIncludeKeywords := inc, qualityExcludeKeywords := exc\<rparr>) st (Node l)
          = scrapeStep cfg st (Node l))
   \<and> scrapeStep (defaultConfig\<lparr>qualityExcludeKeywords := [''broken''], includeFreeItems := b\<rparr>)
        ([], []) (Node (sampleListing ''1'' ''Broken Phone'' ''Free'')) = ([], [])
   \<and> scrapeStep (defaultConfig\<lparr>qualityExcludeKeywords := [''broken''], includeFreeItems := b\<rparr>)
        ([], []) (Node (sampleListing ''1'' ''Broken Phone'' ''$5''))
        = ([IdString ''1''], [newItem (sampleListing ''1'' ''Broken Phone'' ''$5'')])"
proof -
  have n0: "numericPrice ''Free'' = 0" and n5: "numericPrice ''$5'' = 5"
    by (simp_all add: price_eval)
  have kw: "titleHasKeyword (toLowerCase ''Broken Phone'') [''broken'']"
    by (simp add: keyword_eval)
  have a: "scrapeStep (defaultConfig\<lparr>qualityExcludeKeywords := [''broken''], includeFreeItems := b\<rparr>)
        ([], []) (Node (sampleListing ''1'' ''Broken Phone'' ''Free'')) = ([], [])"
    using n0 kw by (simp add: scrapeStep_def sampleListing_def orDefault_def Let_def)
  have b: "scrapeStep (defaultConfig\<lparr>qualityExcludeKeywords := [''broken''], includeFreeItems := b\<rparr>)
        ([], []) (Node (sampleListing ''1'' ''Broken Phone'' ''$5''))
        = ([IdString ''1''], [newItem (sampleListing ''1'' ''Broken Phone'' ''$5'')])"
    using n5 by (simp add: scrapeStep_def sampleListing_def orDefault_def defaultConfig_def
        belowMinPrice_def aboveMaxPrice_def set_has_def set_add_def Let_def)
  show ?thesis
    using a b by (simp add: scrapeStep_def belowMinPrice_def aboveMaxPrice_def Let_def)
qed

theorem keyword_rules_only_for_free_listings_witness:
  "numericPrice (orDefault (formatted_amount (sampleListing ''1'' ''Broken Phone'' ''Free'')) ''Unknown'') = 0
   \<and> titleHasKeyword
        (toLowerCase (orDefault (marketplace_listing_title (sampleListing ''1'' ''Broken Phone'' ''Free'')) ''Untitled''))
        (qualityExcludeKeywords (defaultConfig\<lparr>qualityExcludeKeywords := [''broken'']\<rparr>))
   \<and> scrapeStep (defaultConfig\<lparr>qualityExcludeKeywords := [''broken'']\<rparr>) ([], [])
        (Node (sampleListing ''1'' ''Broken Phone'' ''Free'')) = ([], [])
   \<and> numericPrice (orDefault (formatted_amount (sampleListing ''2'' ''Old Couch'' ''Free'')) ''Unknown'') = 0
   \<and> qualityIncludeKeywords (defaultConfig\<lparr>qualityIncludeKeywords := [''sealed'']\<rparr>) \<noteq> []
   \<and> \<not> titleHasKeyword
        (toLowerCase (orDefault (marketplace_listing_title (sampleListing ''2'' ''Old Couch'' ''Free'')) ''Untitled''))
        (qualityIncludeKeywords (defaultConfig\<lparr>qualityIncludeKeywords := [''sealed'']\<rparr>))
   \<and> scrapeStep (defaultConfig\<lparr>qualityIncludeKeywords := [''sealed'']\<rparr>) ([], [])
        (Node (sampleListing ''2'' ''Old Couch'' ''Free'')) = ([], [])
   \<and> numericPrice (orDefault (formatted_amount (sampleListing ''1'' ''Broken Phone'' ''$5'')) ''Unknown'') \<noteq> 0
   \<and> scrapeStep (defaultConfig\<lparr>qualityIncludeKeywords := [''sealed''], qualityExcludeKeywords := [''broken'']\<rparr>)
        ([], []) (Node (sampleListing ''1'' ''Broken Phone'' ''$5''))
       = scrapeStep defaultConfig ([], []) (Node (sampleListing ''1'' ''Broken Phone'' ''$5''))"
proof -
  have n: "numericPrice ''Free'' = 0" "numericPrice ''$5'' = 5"
    by (simp_all add: price_eval)
  have k: "titleHasKeyword (toLowerCase ''Broken Phone'') [''broken'']"
    "\<not> titleHasKeyword (toLowerCase ''Old Couch'') [''sealed'']"
    by (simp_all add: keyword_eval)
  have h1: "numericPrice (orDefault (formatted_amount (sampleListing ''1'' ''Broken Phone'' ''Free'')) ''Unknown'') = 0"
    "numericPrice (orDefault (formatted_amount (sampleListing ''2'' ''Old Couch'' ''Free'')) ''Unknown'') = 0"
    "numericPrice (orDefault (formatted_amount (sampleListing ''1'' ''Broken Phone'' ''$5'')) ''Unknown'') \<noteq> 0"
    by (simp_all add: sampleListing_def orDefault_def n)
  have h2: "titleHasKeyword
        (toLowerCase (orDefault (marketplace_listing_title (sampleListing ''1'' ''Broken Phone'' ''Free'')) ''Untitled''))
        (qualityExcludeKeywords (defaultConfig\<lparr>qualityExcludeKeywords := [''broken'']\<rparr>))"
    "\<not> titleHasKeyword
        (toLowerCase (orDefault (marketplace_listing_title (sampleListing ''2'' ''Old Couch'' ''Free'')) ''Untitled''))
        (qualityIncludeKeywords (defaultConfig\<lparr>qualityIncludeKeywords := [''sealed'']\<rparr>))"
    "qualityIncludeKeywords (defaultConfig\<lparr>qualityIncludeKeywords := [''sealed'']\<rparr>) \<noteq> []"
    by (simp_all add: sampleListing_def orDefault_def k)
  from h1 h2
    keyword_rules_only_for_free_listings [where l = "sampleListing ''1'' ''Broken Phone'' ''Free''" and cfg = "defaultConfig\<lparr>qualityExcludeKeywords := [''broken'']\<rparr>" and st = "([], [])"]
    keyword_rules_only_for_free_listings [where l = "sampleListing ''2'' ''Old Couch'' ''Free''" and cfg = "defaultConfig\<lparr>qualityIncludeKeywords := [''sealed'']\<rparr>" and st = "([], [])"]
    keyword_rules_only_for_free_listings [where l = "sampleListing ''1'' ''Broken Phone'' ''$5''" and cfg = defaultConfig and inc = "[''sealed'']" and exc = "[''broken'']" and st = "([], [])"]
  show ?thesis
    by simp
qed

section \<open>Price bounds\<close>

text \<open>
  Claim C6. With \<open>minPrice = lo\<close> and \<open>maxPrice = hi\<close> set, a listing whose numeric price is
  below \<open>lo\<close> or above \<open>hi\<close> is rejected, and an unseen listing with a non-zero numeric
  price from \<open>lo\<close> to \<open>hi\<close>, both ends included, is accepted; the price \<open>lo\<close> is not below
  the minimum and the price \<open>hi\<close> is not above the maximum. In the example of the spec,
  with the bounds 10 and 20, the prices $10 and $20 are accepted, $9.99 and $20.01 are
  rejected.
\<close>

theorem price_bounds_inclusive:
  assumes "minPrice cfg = Some lo" "maxPrice cfg = Some hi"
  shows "(numericPrice (orDefault (formatted_amount l) ''Unknown'') < lo
            \<or> hi < numericPrice (orDefault (formatted_amount l) ''Unknown'')
          \<longrightarrow> scrapeStep cfg st (Node l) = st)
     \<and> (numericPrice (orDefault (formatted_amount l) ''Unknown'') \<noteq> 0
          \<and> \<not> set_has (fst st) (listing_id l)
          \<and> lo \<le> numericPrice (orDefault (formatted_amount l) ''Unknown'')
          \<and> numericPrice (orDefault (formatted_amount l) ''Unknown'') \<le> hi
          \<longrightarrow> scrapeStep cfg st (Node l) = (set_add (fst st) (listing_id l), snd st @ [newItem l]))
     \<and> \<not> belowMinPrice cfg lo \<and> \<not> aboveMaxPrice cfg hi"
  using assms
  by (auto simp: scrapeStep_Node passesFilters_def belowMinPrice_def aboveMaxPrice_def Let_def)

theorem price_bounds_inclusive_witness:
  "minPrice (defaultConfig\<lparr>minPrice := Some 10, maxPrice := Some 20\<rparr>) = Some 10
   \<and> maxPrice (defaultConfig\<lparr>minPrice := Some 10, maxPrice := Some 20\<rparr>) = Some 20
   \<and> scrapeStep (defaultConfig\<lparr>minPrice := Some 10, maxPrice := Some 20\<rparr>) ([], [])
        (Node (sampleListing ''7'' ''Phone'' ''$10''))
       = ([IdString ''7''], [newItem (sampleListing ''7'' ''Phone'' ''$10'')])
   \<and> scrapeStep (defaultConfig\<lparr>minPrice := Some 10, maxPrice := Some 20\<rparr>) ([], [])
        (Node (sampleListing ''7'' ''Phone'' ''$20''))
       = ([IdString ''7''], [newItem (sampleListing ''7'' ''Phone'' ''$20'')])
   \<and> scrapeStep (defaultConfig\<lparr>minPrice := Some 10, maxPrice := Some 20\<rparr>) ([], [])
        (Node (sampleListing ''7'' ''Phone'' ''$9.99'')) = ([], [])
   \<and> scrapeStep (defaultConfig\<lparr>minPrice := Some 10, maxPrice := Some 20\<rparr>) ([], [])
        (Node (sampleListing ''7'' ''Phone'' ''$20.01'')) = ([], [])"
proof -
  let ?cfg = "defaultConfig\<lparr>minPrice := Some 10, maxPrice := Some 20\<rparr>"
  have m: "minPrice ?cfg = Some 10" "maxPrice ?cfg = Some 20"
    by simp_all
  have n: "numericPrice ''$10'' = 10" "numericPrice ''$20'' = 20"
    "numericPrice ''$9.99'' = 999 / 100" "numericPrice ''$20.01'' = 2001 / 100"
    by (simp_all add: price_eval)
  have f: "formatted_amount (sampleListing i t p) = Some p" "listing_id (sampleListing i t p) = IdString i" for i t p
    by (simp_all add: sampleListing_def)
  show ?thesis
    using price_bounds_inclusive [OF m, of "sampleListing ''7'' ''Phone'' ''$10''" "([], [])"]
      price_bounds_inclusive [OF m, of "sampleListing ''7'' ''Phone'' ''$20''" "([], [])"]
      price_bounds_inclusive [OF m, of "sampleListing ''7'' ''Phone'' ''$9.99''" "([], [])"]
      price_bounds_inclusive [OF m, of "sampleListing ''7'' ''Phone'' ''$20.01''" "([], [])"]
    by (simp add: f n orDefault_def set_has_def set_add_def)
qed

section \<open>The seen-id set changes only on acceptance\<close>

text \<open>
  Claim C9. A round of the loop that adds no item leaves the seen-id set as it was: a
  record that is already seen, or that fails a keyword or price rule, changes nothing,
  and the set changes only for an unseen record that passes all rules, by adding its id.
  A call that returns no items leaves the set unchanged. So a listing rejected under one
  configuration is accepted by a later call under a configuration whose rules it passes.
\<close>

theorem seen_set_unchanged_unless_accepted:
  "(snd (scrapeStep cfg (p, ns) e) = ns \<longrightarrow> fst (scrapeStep cfg (p, ns) e) = p)
   \<and> (set_has p (listing_id l) \<or> \<not> passesFilters cfg l \<longrightarrow> scrapeStep cfg (p, ns) (Node l) = (p, ns))
   \<and> (fst (scrapeStep cfg (p, ns) (Node l)) \<noteq> p \<longrightarrow>
        \<not> set_has p (listing_id l) \<and> passesFilters cfg l
        \<and> scrapeStep cfg (p, ns) (Node l) = (set_add p (listing_id l), ns @ [newItem l]))
   \<and> (snd (filterEdges cfg es p) = [] \<longrightarrow> fst (filterEdges cfg es p) = p)
   \<and> (\<not> set_has p (listing_id l) \<and> \<not> passesFilters cfg l \<and> passesFilters cfg' l \<longrightarrow>
        filterEdges cfg' [Node l] (fst (filterEdges cfg [Node l] p))
          = (set_add p (listing_id l), [newItem l]))"
proof -
  have a: "snd (scrapeStep cfg (p, ns) e) = ns \<longrightarrow> fst (scrapeStep cfg (p, ns) e) = p"
    using scrapeStep_out [of cfg "(p, ns)" e] by auto
  have b: "set_has p (listing_id l) \<or> \<not> passesFilters cfg l \<longrightarrow> scrapeStep cfg (p, ns) (Node l) = (p, ns)"
    by (simp add: scrapeStep_Node)
  have c: "fst (scrapeStep cfg (p, ns) (Node l)) \<noteq> p \<longrightarrow>
        \<not> set_has p (listing_id l) \<and> passesFilters cfg l
        \<and> scrapeStep cfg (p, ns) (Node l) = (set_add p (listing_id l), ns @ [newItem l])"
    by (simp add: scrapeStep_Node)
  have d: "snd (filterEdges cfg es p) = [] \<longrightarrow> fst (filterEdges cfg es p) = p"
  proof
    assume "snd (filterEdges cfg es p) = []"
    then have "snd (scrapeLoop cfg (p, []) es) = snd (p, [])"
      by (simp add: filterEdges_def)
    then have "scrapeLoop cfg (p, []) es = (p, [])"
      by (rule scrapeLoop_frame)
    then show "fst (filterEdges cfg es p) = p"
      by (simp add: filterEdges_def)
  qed
  have e: "\<not> set_has p (listing_id l) \<and> \<not> passesFilters cfg l \<and> passesFilters cfg' l \<longrightarrow>
        filterEdges cfg' [Node l] (fst (filterEdges cfg [Node l] p))
          = (set_add p (listing_id l), [newItem l])"
    by (simp add: scrapeStep_Node filterEdges_def)
  from a b c d e show ?thesis
    by (intro conjI)
qed

theorem seen_set_unchanged_unless_accepted_witness:
  "snd (scrapeStep (defaultConfig\<lparr>maxPrice := Some 20\<rparr>) ([], []) (Node (sampleListing ''9'' ''Phone'' ''$50''))) = []
   \<and> fst (scrapeStep (defaultConfig\<lparr>maxPrice := Some 20\<rparr>) ([], []) (Node (sampleListing ''9'' ''Phone'' ''$50''))) = []
   \<and> \<not> set_has [] (listing_id (sampleListing ''9'' ''Phone'' ''$50''))
   \<and> \<not> passesFilters (defaultConfig\<lparr>maxPrice := Some 20\<rparr>) (sampleListing ''9'' ''Phone'' ''$50'')
   \<and> passesFilters defaultConfig (sampleListing ''9'' ''Phone'' ''$50'')
   \<and> filterEdges defaultConfig [Node (sampleListing ''9'' ''Phone'' ''$50'')]
        (fst (filterEdges (defaultConfig\<lparr>maxPrice := Some 20\<rparr>) [Node (sampleListing ''9'' ''Phone'' ''$50'')] []))
       = ([IdString ''9''], [newItem (sampleListing ''9'' ''Phone'' ''$50'')])
   \<and> fst (scrapeStep defaultConfig ([], []) (Node (sampleListing ''9'' ''Phone'' ''$50''))) \<noteq> []
   \<and> snd (filterEdges (defaultConfig\<lparr>maxPrice := Some 20\<rparr>) [Node (sampleListing ''9'' ''Phone'' ''$50'')] [IdString ''3'']) = []
   \<and> fst (filterEdges (defaultConfig\<lparr>maxPrice := Some 20\<rparr>) [Node (sampleListing ''9'' ''Phone'' ''$50'')] [IdString ''3'']) = [IdString ''3'']"
proof -
  let ?l = "sampleListing ''9'' ''Phone'' ''$50''"
  let ?c = "defaultConfig\<lparr>maxPrice := Some 20\<rparr>"
  have n: "numericPrice ''$50'' = 50"
    by (simp add: price_eval)
  have i: "listing_id ?l = IdString ''9''"
    by (simp add: sampleListing_def)
  have h1: "\<not> set_has [] (listing_id ?l)"
    by (simp add: set_has_def)
  have h2: "\<not> passesFilters ?c ?l"
    by (simp add: passesFilters_def sampleListing_def orDefault_def n aboveMaxPrice_def)
  have h3: "passesFilters defaultConfig ?l"
    by (simp add: passesFilters_def sampleListing_def orDefault_def n aboveMaxPrice_def
        belowMinPrice_def defaultConfig_def)
  have s1: "snd (scrapeStep ?c ([], []) (Node ?l)) = []"
    using h2 by (simp add: scrapeStep_Node)
  have s2: "snd (filterEdges ?c [Node ?l] [IdString ''3'']) = []"
    using h2 by (simp add: scrapeStep_Node filterEdges_def)
  have s3: "fst (scrapeStep defaultConfig ([], []) (Node ?l)) \<noteq> []"
    using h1 h3 by (simp add: scrapeStep_Node set_add_def)
  have r1: "fst (scrapeStep ?c ([], []) (Node ?l)) = []"
    using seen_set_unchanged_unless_accepted [where cfg = ?c and p = "[]" and ns = "[]" and e = "Node ?l"] s1 by blast
  have r2: "filterEdges defaultConfig [Node ?l] (fst (filterEdges ?c [Node ?l] []))
       = (set_add [] (listing_id ?l), [newItem ?l])"
    using seen_set_unchanged_unless_accepted [where cfg = ?c and p = "[]" and l = ?l and cfg' = defaultConfig] h1 h2 h3 by blast
  have r3: "fst (filterEdges ?c [Node ?l] [IdString ''3'']) = [IdString ''3'']"
    using seen_set_unchanged_unless_accepted [where cfg = ?c and p = "[IdString ''3'']" and es = "[Node ?l]"] s2 by blast
  from r2 have r2': "filterEdges defaultConfig [Node ?l] (fst (filterEdges ?c [Node ?l] []))
       = ([IdString ''9''], [newItem ?l])"
    by (simp add: i set_add_def)
  from s1 r1 h1 h2 h3 r2' s3 s2 r3 show ?thesis
    by (intro conjI)
qed

section \<open>Listings without an id\<close>

text \<open>
  Claim C3 says that a node whose listing has no id is skipped. The loop does not do that:
  with the shipped configuration and an empty seen-id set, a listing without an id is
  emitted with a link that ends in \<^verbatim>\<open>undefined\<close>, and \<^verbatim>\<open>undefined\<close> joins the set.
\<close>

theorem missing_id_is_emitted:
  "filterEdges defaultConfig
     [Node \<lparr>listing_id = IdUndefined, marketplace_listing_title = Some ''Phone'',
            formatted_amount = Some ''$5''\<rparr>] []
   = ([IdUndefined],
      [\<lparr>title = ''Phone'', price = ''$5'',
        link = ''https://www.facebook.com/marketplace/item/undefined'',
        description = '''', image = '''', estimate = ''''\<rparr>])"
  by (simp add: filterEdges_def scrapeStep_Node filter_eval price_eval set_has_def set_add_def
      newItem_def idText_def)

text \<open>
  Claim C3, amended. The loop skips an edge without a node and a node without a listing.
  A listing without an id is handled like any other, with the id \<^verbatim>\<open>undefined\<close>: its link
  ends in \<^verbatim>\<open>undefined\<close>; it is skipped when \<^verbatim>\<open>undefined\<close> is in the seen-id set or a filter
  rule rejects it, and otherwise it is emitted and \<^verbatim>\<open>undefined\<close> is added to the set.
\<close>

theorem only_missing_listing_is_skipped:
  "scrapeStep cfg st NoNode = st \<and> scrapeStep cfg st NodeWithoutListing = st
   \<and> (listing_id l = IdUndefined \<longrightarrow>
        link (newItem l) = ''https://www.facebook.com/marketplace/item/undefined''
        \<and> scrapeStep cfg st (Node l)
            = (if \<not> set_has (fst st) IdUndefined \<and> passesFilters cfg l
               then (set_add (fst st) IdUndefined, snd st @ [newItem l]) else st))"
  by (simp add: scrapeStep_Node newItem_def idText_def)

theorem only_missing_listing_is_skipped_witness:
  "listing_id \<lparr>listing_id = IdUndefined, marketplace_listing_title = Some ''Phone'',
            formatted_amount = Some ''$5''\<rparr> = IdUndefined
   \<and> scrapeStep defaultConfig ([], []) (Node \<lparr>listing_id = IdUndefined, marketplace_listing_title = Some ''Phone'',
            formatted_amount = Some ''$5''\<rparr>)
     = ([IdUndefined], [newItem \<lparr>listing_id = IdUndefined, marketplace_listing_title = Some ''Phone'',
            formatted_amount = Some ''$5''\<rparr>])
   \<and> scrapeStep defaultConfig ([IdUndefined], []) (Node \<lparr>listing_id = IdUndefined, marketplace_listing_title = Some ''Phone'',
            formatted_amount = Some ''$5''\<rparr>)
     = ([IdUndefined], [])"
proof -
  let ?l = "\<lparr>listing_id = IdUndefined, marketplace_listing_title = Some ''Phone'',
            formatted_amount = Some ''$5''\<rparr>"
  have h: "passesFilters defaultConfig ?l"
    by (simp add: filter_eval price_eval)
  from h only_missing_listing_is_skipped [of defaultConfig "([], [])" ?l] only_missing_listing_is_skipped [of defaultConfig "([IdUndefined], [])" ?l]
  show ?thesis
    by (simp add: set_has_def set_add_def)
qed

section \<open>The numeric price\<close>

text \<open>
  Claim C7. The numeric price is a function of the price text alone, defined on every
  string: it is what \<open>parseFloat\<close> reads from the text stripped of everything but digits and
  dots, and 0 when nothing is left or the rest is not a number. It depends on the digits
  and dots only and is never negative. The four values of the spec hold.
\<close>

theorem numericPrice_total_and_deterministic:
  "(\<forall>p. numericPrice p = (case parseFloat (stripNonNumeric p) of None \<Rightarrow> 0 | Some v \<Rightarrow> v))
   \<and> (\<forall>p. stripNonNumeric p = [] \<or> parseFloat (stripNonNumeric p) = None \<longrightarrow> numericPrice p = 0)
   \<and> (\<forall>p q. stripNonNumeric p = stripNonNumeric q \<longrightarrow> numericPrice p = numericPrice q)
   \<and> (\<forall>p. 0 \<le> numericPrice p)
   \<and> numericPrice '''' = 0 \<and> numericPrice ''Free'' = 0 \<and> numericPrice ''$0'' = 0
   \<and> numericPrice ''$123.45'' = 12345 / 100"
proof -
  have a: "numericPrice p = (case parseFloat (stripNonNumeric p) of None \<Rightarrow> 0 | Some v \<Rightarrow> v)" for p
    by (simp add: numericPrice_def parseFloat_def Let_def)
  have b: "numericPrice '''' = 0" "numericPrice ''Free'' = 0" "numericPrice ''$0'' = 0"
    "numericPrice ''$123.45'' = 12345 / 100"
    by (simp_all add: price_eval)
  have c: "stripNonNumeric p = [] \<or> parseFloat (stripNonNumeric p) = None \<longrightarrow> numericPrice p = 0" for p
    by (auto simp: numericPrice_def Let_def)
  have d: "stripNonNumeric p = stripNonNumeric q \<longrightarrow> numericPrice p = numericPrice q" for p q
    by (simp add: numericPrice_def)
  have e: "0 \<le> numericPrice p" for p
    by (rule numericPrice_nonneg)
  from a b c d e show ?thesis
    by (intro conjI allI)
qed

theorem numericPrice_total_and_deterministic_witness:
  "stripNonNumeric ''Unknown'' = [] \<and> numericPrice ''Unknown'' = 0
   \<and> parseFloat (stripNonNumeric ''N.A.'') = None \<and> numericPrice ''N.A.'' = 0
   \<and> stripNonNumeric ''$1,250.50 CAD'' = stripNonNumeric ''1250.50''
   \<and> numericPrice ''$1,250.50 CAD'' = numericPrice ''1250.50''"
proof -
  have h1: "stripNonNumeric ''Unknown'' = []"
    by (simp add: price_eval)
  have h2: "parseFloat (stripNonNumeric ''N.A.'') = None"
    by (simp add: price_eval)
  have h3: "stripNonNumeric ''$1,250.50 CAD'' = stripNonNumeric ''1250.50''"
    by (simp add: stripNonNumeric_def isDigit_def)
  have r: "\<And>p. stripNonNumeric p = [] \<or> parseFloat (stripNonNumeric p) = None \<Longrightarrow> numericPrice p = 0"
    "\<And>p q. stripNonNumeric p = stripNonNumeric q \<Longrightarrow> numericPrice p = numericPrice q"
    using numericPrice_total_and_deterministic by blast+
  from h1 have r1: "numericPrice ''Unknown'' = 0"
    by (intro r(1)) simp
  from h2 have r2: "numericPrice ''N.A.'' = 0"
    by (intro r(1)) simp
  from h3 have r3: "numericPrice ''$1,250.50 CAD'' = numericPrice ''1250.50''"
    by (rule r(2))
  from h1 r1 h2 r2 h3 r3 show ?thesis
    by (intro conjI)
qed

section \<open>The resale estimator\<close>

lemma floor_rat_numeral_div: "\<lfloor>(numeral a :: rat) / numeral b\<rfloor> = numeral a div numeral b"
  using floor_divide_of_int_eq [of "numeral a" "numeral b", where ?'a = rat] by simp

text \<open>
  Claim C10. With \<open>priceEstimationEnabled\<close> off the estimator returns the empty string, for
  every price, title and description; with it on the result is never empty. The empty
  string is neither \<^verbatim>\<open>n/a\<close> nor an estimate in dollars, so the caller can tell the two
  cases apart.
\<close>

theorem disabled_estimation_returns_empty_string:
  "(\<not> priceEstimationEnabled cfg \<longrightarrow> estimateResaleValue cfg cats p t d = '''')
   \<and> (priceEstimationEnabled cfg \<longrightarrow>
        estimateResaleValue cfg cats p t d \<noteq> '''')
   \<and> '''' \<noteq> ''n/a'' \<and> \<not> prefix ''$'' ''''"
  by (auto simp: estimateResaleValue_def Let_def split: option.splits jsvalue.splits)

theorem disabled_estimation_returns_empty_string_witness:
  "\<not> priceEstimationEnabled (defaultConfig\<lparr>priceEstimationEnabled := False\<rparr>)
   \<and> estimateResaleValue (defaultConfig\<lparr>priceEstimationEnabled := False\<rparr>) [] ''$100'' ''Phone'' '''' = ''''
   \<and> priceEstimationEnabled defaultConfig
   \<and> estimateResaleValue defaultConfig [] ''$100'' ''Phone'' '''' \<noteq> ''''"
proof -
  have h: "\<not> priceEstimationEnabled (defaultConfig\<lparr>priceEstimationEnabled := False\<rparr>)"
    "priceEstimationEnabled defaultConfig"
    by (simp_all add: defaultConfig_def)
  from h disabled_estimation_returns_empty_string [where cfg = "defaultConfig\<lparr>priceEstimationEnabled := False\<rparr>"]
    disabled_estimation_returns_empty_string [where cfg = defaultConfig]
  show ?thesis
    by blast
qed

text \<open>
  The priced branch of the estimator, and the three examples of the spec together with a
  category split at a slash.
\<close>

lemma estimate_priced:
  "priceEstimationEnabled cfg \<Longrightarrow> parseFloat (stripNonNumeric p) = Some v \<Longrightarrow> 0 < v \<Longrightarrow>
   estimateResaleValue cfg cats p t d = ''$'' @ toFixed2 (v * (1 / 2))"
  by (simp add: estimateResaleValue_def)

lemma estimate_examples:
  "estimateResaleValue defaultConfig [] ''$100'' ''x'' '''' = ''$50.00''
   \<and> estimateResaleValue defaultConfig [] ''Free'' ''x'' '''' = ''n/a''
   \<and> estimateResaleValue defaultConfig [(''Electronics'', JNumber 300)] ''Free'' ''Electronics Deal'' ''''
       = ''$150.00''
   \<and> estimateResaleValue defaultConfig [(''Electronics / Phones'', JNumber 80)] ''Free''
        ''Phones for sale'' '''' = ''$40.00''"
  by (simp add: estimateResaleValue_def defaultConfig_def parseFloat_def stripNonNumeric_def
      isDigit_def categoryMatches_def toLowerCase_def toLowerChar_def splitCategory_def
      matchSeparator_def isSpace_def toFixed2_def Let_def show_nat.simps digitChar_def
      digitsVal_def digitVal_def floor_rat_numeral_div)

text \<open>
  Claim C4 says that a category name is split at \<^verbatim>\<open>/\<close> and at \<^verbatim>\<open>>\<close>, with the white space
  around either trimmed. The regular expression of the source does so for the slash only.
  A \<^verbatim>\<open>>\<close> with no white space before it does not separate, so the category \<^verbatim>\<open>Men>Shoes\<close>
  is one token and a free listing titled "Shoes" gets \<^verbatim>\<open>n/a\<close>; and the white space after
  \<^verbatim>\<open>>\<close> stays in the next token, so \<^verbatim>\<open>Electronics > Phones\<close> gives the token
  \<^verbatim>\<open>" phones"\<close>, which the title "Phones for sale" does not contain.
\<close>

theorem gt_separator_is_not_split:
  "estimateResaleValue defaultConfig [(''Men>Shoes'', JNumber 80)] ''Free'' ''Shoes'' '''' = ''n/a''
   \<and> estimateResaleValue defaultConfig [(''Electronics > Phones'', JNumber 80)] ''Free''
        ''Phones for sale'' '''' = ''n/a''
   \<and> splitCategory ''men>shoes'' = [''men>shoes'']
   \<and> splitCategory ''electronics > phones'' = [''electronics'', '' phones'']"
  by (simp add: estimateResaleValue_def defaultConfig_def parseFloat_def stripNonNumeric_def
      isDigit_def categoryMatches_def toLowerCase_def toLowerChar_def splitCategory_def
      matchSeparator_def isSpace_def Let_def)

section \<open>Buffering of notifications\<close>

lemma trim_nonempty:
  assumes "c \<in> set s" "\<not> isSpace c"
  shows "trim s \<noteq> []"
proof -
  have "set s = set (takeWhile isSpace s) \<union> set (dropWhile isSpace s)"
    by (metis set_append takeWhile_dropWhile_id)
  moreover have "\<forall>x \<in> set (takeWhile isSpace s). isSpace x"
    by (auto dest: set_takeWhileD)
  ultimately have "c \<in> set (dropWhile isSpace s)"
    using assms by auto
  then have "\<not> (\<forall>x \<in> set (rev (dropWhile isSpace s)). isSpace x)"
    using assms(2) by auto
  then have "dropWhile isSpace (rev (dropWhile isSpace s)) \<noteq> []"
    using dropWhile_eq_Nil_conv [of isSpace "rev (dropWhile isSpace s)"] by blast
  then show ?thesis
    by (simp add: trim_def)
qed

lemma bufferContent_visible: "trim (old @ bufferContent now searchTerm items) \<noteq> []"
proof (rule trim_nonempty)
  show "CHR ''['' \<in> set (old @ bufferContent now searchTerm items)"
    by (simp add: bufferContent_def)
  show "\<not> isSpace CHR ''[''"
    by (simp add: isSpace_def)
qed

lemma sublist_append_left: "sublist x ys \<Longrightarrow> sublist x (ps @ ys)"
proof -
  assume "sublist x ys"
  then obtain a b where "ys = a @ x @ b"
    by (auto simp: sublist_def)
  then have "ps @ ys = (ps @ a) @ x @ b"
    by simp
  then show ?thesis
    unfolding sublist_def by blast
qed

lemma sublist_append_right: "sublist x ys \<Longrightarrow> sublist x (ys @ ss)"
proof -
  assume "sublist x ys"
  then obtain a b where "ys = a @ x @ b"
    by (auto simp: sublist_def)
  then have "ys @ ss = a @ x @ (b @ ss)"
    by simp
  then show ?thesis
    unfolding sublist_def by blast
qed

lemma joinWith_sublist: "x \<in> set xs \<Longrightarrow> sublist x (joinWith sep xs)"
proof (induction sep xs rule: joinWith.induct)
  case (1 sep)
  then show ?case by simp
next
  case (2 sep y)
  then show ?case by simp
next
  case (3 sep y z zs)
  show ?case
  proof (cases "x = y")
    case True
    then show ?thesis
      by simp
  next
    case False
    with 3 have "sublist x (joinWith sep (z # zs))"
      by simp
    then have "sublist x (y @ sep @ joinWith sep (z # zs))"
      by (intro sublist_append_left)
    then show ?thesis
      by simp
  qed
qed

lemma notify_outside:
  assumes "items \<noteq> []" "writable s" "\<not> (activeStart cfg \<le> h \<and> h \<le> activeEnd cfg)"
  shows "notify cfg h now searchTerm items s
     = Inr (s\<lparr>bufferFile :=
              Some ((case bufferFile s of None \<Rightarrow> [] | Some b \<Rightarrow> b) @ bufferContent now searchTerm items)\<rparr>)"
  using assms by (auto simp: notify_def appendBuffer_def Let_def)

lemma notify_inside:
  assumes "items \<noteq> []" "writable s" "activeStart cfg \<le> h \<and> h \<le> activeEnd cfg"
    and "bufferFile s = Some b" "trim b \<noteq> []"
  shows "notify cfg h now searchTerm items s
     = Inr (s\<lparr>bufferFile := Some [],
             outbox := outbox s @
               map (\<lambda>recipient.
                      \<lparr>mail_from = sender cfg, mail_to = recipient,
                       subject = subjectLine searchTerm items,
                       text_body = ''Previous notifications:\<newline>'' @ b @ ''\<newline>\<newline>''
                                     @ joinWith ''\<newline>\<newline>'' (map textLine items),
                       html_body = concat (map htmlItem items)\<rparr>)
                   (recipients cfg)\<rparr>)"
  using assms by (simp add: notify_def flushBuffer_def Let_def)

lemma bufferLine_fun: "bufferLine = (\<lambda>it. title it @ '' - '' @ price it @ '' - '' @ link it)"
  by (rule ext) (simp add: bufferLine_def)

lemma textLine_fun:
  "textLine = (\<lambda>it. title it @ [CHR '' '', CHR 0xE2, CHR 0x80, CHR 0x93, CHR '' ''] @ price it
                      @ ''\<newline>'' @ link it)"
  by (rule ext) (simp add: textLine_def enDash_def)

text \<open>
  Claim C2. Let the files be writable and both item lists non-empty. A call of \<open>notify\<close>
  at an hour \<open>h1\<close> outside \<open>activeStart \<le> h \<le> activeEnd\<close> changes nothing but the buffer
  file, to which it appends the block of its items: a heading with the time stamp and the
  search term, then for each item, in order, one line with its title, price and link,
  separated by \<^verbatim>\<open> - \<close>. No mail is handed to the notifier. The next call, at an hour \<open>h2\<close>
  inside the window (both ends included), hands the notifier one mail for each configured
  recipient, in their order, and leaves the buffer file empty. The text of each mail is
  \<^verbatim>\<open>Previous notifications:\<close>, the whole buffer, and for each new item its title, an en dash
  and its price on one line and its link on the next; the subject counts the new items.
  So what the buffer held before, the block of the first call, the title, price and link
  of every buffered item and the title, price and link of every new item occur in it.
\<close>

theorem notify_buffers_outside_window_and_flushes_inside:
  assumes "items1 \<noteq> []" "items2 \<noteq> []" "writable s"
    and "\<not> (activeStart cfg \<le> h1 \<and> h1 \<le> activeEnd cfg)"
    and "activeStart cfg \<le> h2 \<and> h2 \<le> activeEnd cfg"
  shows
    \<open>(let old = (case bufferFile s of None \<Rightarrow> [] | Some b \<Rightarrow> b);
          block = ''\<newline>\<newline>['' @ now1 @ ''] Results for "'' @ term1 @ ''":\<newline>''
                    @ joinWith ''\<newline>''
                        (map (\<lambda>it. title it @ '' - '' @ price it @ '' - '' @ link it) items1);
          buffered = old @ block;
          body = ''Previous notifications:\<newline>'' @ buffered @ ''\<newline>\<newline>''
                   @ joinWith ''\<newline>\<newline>''
                       (map (\<lambda>it. title it @ [CHR '' '', CHR 0xE2, CHR 0x80, CHR 0x93, CHR '' '']
                                    @ price it @ ''\<newline>'' @ link it) items2);
          subj = show_nat (length items2) @ '' new result''
                   @ (if length items2 > 1 then ''s'' else []) @ '' for "'' @ term2 @ ''"''
      in notify cfg h1 now1 term1 items1 s = Inr (s\<lparr>bufferFile := Some buffered\<rparr>)
         \<and> notify cfg h2 now2 term2 items2 (s\<lparr>bufferFile := Some buffered\<rparr>)
             = Inr (s\<lparr>bufferFile := Some [],
                     outbox := outbox s @
                       map (\<lambda>recipient.
                              \<lparr>mail_from = sender cfg, mail_to = recipient,
                               subject = subj, text_body = body,
                               html_body = concat (map htmlItem items2)\<rparr>)
                           (recipients cfg)\<rparr>)
         \<and> sublist old body \<and> sublist block body
         \<and> list_all (\<lambda>it. sublist (title it @ '' - '' @ price it @ '' - '' @ link it) block) items1
         \<and> list_all (\<lambda>it. sublist (title it @ '' - '' @ price it @ '' - '' @ link it) body) items1
         \<and> list_all (\<lambda>it. sublist (title it @ [CHR '' '', CHR 0xE2, CHR 0x80, CHR 0x93, CHR '' '']
                                      @ price it @ ''\<newline>'' @ link it) body) items2)\<close>
proof -
  let ?bl = "\<lambda>it. title it @ '' - '' @ price it @ '' - '' @ link it"
  let ?tl = "\<lambda>it. title it @ [CHR '' '', CHR 0xE2, CHR 0x80, CHR 0x93, CHR '' ''] @ price it
                      @ ''\<newline>'' @ link it"
  let ?old = "case bufferFile s of None \<Rightarrow> [] | Some b \<Rightarrow> b"
  let ?block = \<open>''\<newline>\<newline>['' @ now1 @ ''] Results for "'' @ term1 @ ''":\<newline>''
                    @ joinWith ''\<newline>'' (map ?bl items1)\<close>
  let ?buffered = "?old @ ?block"
  let ?new = "joinWith ''\<newline>\<newline>'' (map ?tl items2)"
  let ?body = "''Previous notifications:\<newline>'' @ ?buffered @ ''\<newline>\<newline>'' @ ?new"
  let ?subj = \<open>show_nat (length items2) @ '' new result''
                   @ (if length items2 > 1 then ''s'' else []) @ '' for "'' @ term2 @ ''"''\<close>
  have bc: "bufferContent now1 term1 items1 = ?block"
    by (simp add: bufferContent_def bufferLine_fun)
  have sj: "subjectLine term2 items2 = ?subj"
    by (simp add: subjectLine_def)
  have first: "notify cfg h1 now1 term1 items1 s = Inr (s\<lparr>bufferFile := Some ?buffered\<rparr>)"
    by (rule notify_outside [OF assms(1,3,4), of now1 term1, unfolded bc])
  have vis: "trim ?buffered \<noteq> []"
    by (rule bufferContent_visible [of ?old now1 term1 items1, unfolded bc])
  have second: "notify cfg h2 now2 term2 items2 (s\<lparr>bufferFile := Some ?buffered\<rparr>)
             = Inr (s\<lparr>bufferFile := Some [],
                     outbox := outbox s @
                       map (\<lambda>recipient.
                              \<lparr>mail_from = sender cfg, mail_to = recipient,
                               subject = ?subj, text_body = ?body,
                               html_body = concat (map htmlItem items2)\<rparr>)
                           (recipients cfg)\<rparr>)"
    using notify_inside [of items2 "s\<lparr>bufferFile := Some ?buffered\<rparr>" cfg h2 ?buffered now2 term2]
      assms(2,3,5) vis
    by (simp add: sj textLine_fun)
  have o: "sublist ?old ?body"
  proof -
    have "sublist ?old (?old @ ?block @ ''\<newline>\<newline>'' @ ?new)"
      by (rule sublist_append_rightI)
    then have "sublist ?old (?buffered @ ''\<newline>\<newline>'' @ ?new)"
      by simp
    then show ?thesis
      by (rule sublist_append_left)
  qed
  have k: "sublist ?block ?body"
  proof -
    have "sublist ?block (?block @ ''\<newline>\<newline>'' @ ?new)"
      by (rule sublist_append_rightI)
    then have "sublist ?block (?old @ ?block @ ''\<newline>\<newline>'' @ ?new)"
      by (rule sublist_append_left)
    then have "sublist ?block (?buffered @ ''\<newline>\<newline>'' @ ?new)"
      by simp
    then show ?thesis
      by (rule sublist_append_left)
  qed
  have b0: "sublist (?bl it) ?block" if "it \<in> set items1" for it
  proof -
    from that have "sublist (?bl it) (joinWith ''\<newline>'' (map ?bl items1))"
      by (intro joinWith_sublist) simp
    then show ?thesis
      by (intro sublist_append_left)
  qed
  have b1: "sublist (?bl it) ?body" if "it \<in> set items1" for it
  proof -
    from that have "sublist (?bl it) ?block"
      by (rule b0)
    then have "sublist (?bl it) ?buffered"
      by (rule sublist_append_left)
    then have "sublist (?bl it) (?buffered @ ''\<newline>\<newline>'' @ ?new)"
      by (rule sublist_append_right)
    then show ?thesis
      by (rule sublist_append_left)
  qed
  have b2: "sublist (?tl it) ?body" if "it \<in> set items2" for it
  proof -
    from that have "sublist (?tl it) ?new"
      by (intro joinWith_sublist) simp
    then show ?thesis
      by (intro sublist_append_left)
  qed
  from b0 have l0: "list_all (\<lambda>it. sublist (?bl it) ?block) items1"
    by (simp add: list_all_iff)
  from b1 have l1: "list_all (\<lambda>it. sublist (?bl it) ?body) items1"
    by (simp add: list_all_iff)
  from b2 have l2: "list_all (\<lambda>it. sublist (?tl it) ?body) items2"
    by (simp add: list_all_iff)
  from first second o k l0 l1 l2 show ?thesis
    unfolding Let_def by (intro conjI)
qed

theorem notify_buffers_outside_window_and_flushes_inside_witness:
  \<open>[newItem (sampleListing ''42'' ''Phone'' ''$15''), newItem (sampleListing ''44'' ''Case'' ''Free'')] \<noteq> []
   \<and> [newItem (sampleListing ''43'' ''Tablet'' ''$30''), newItem (sampleListing ''45'' ''Desk'' ''$80'')] \<noteq> []
   \<and> writable freshSys
   \<and> \<not> (activeStart defaultConfig \<le> 23 \<and> 23 \<le> activeEnd defaultConfig)
   \<and> (activeStart defaultConfig \<le> 22 \<and> 22 \<le> activeEnd defaultConfig)
   \<and> notify defaultConfig 23 ''11/2/2026, 11:15:00 PM'' ''phone''
         [newItem (sampleListing ''42'' ''Phone'' ''$15''), newItem (sampleListing ''44'' ''Case'' ''Free'')]
         freshSys
       = Inr (freshSys\<lparr>bufferFile := Some
           (''\<newline>\<newline>[11/2/2026, 11:15:00 PM] Results for "phone":\<newline>''
            @ ''Phone - $15 - https://www.facebook.com/marketplace/item/42\<newline>''
            @ ''Case - Free - https://www.facebook.com/marketplace/item/44'')\<rparr>)
   \<and> notify defaultConfig 22 ''11/3/2026, 10:00:00 PM'' ''tablet''
         [newItem (sampleListing ''43'' ''Tablet'' ''$30''), newItem (sampleListing ''45'' ''Desk'' ''$80'')]
         (freshSys\<lparr>bufferFile := Some
           (''\<newline>\<newline>[11/2/2026, 11:15:00 PM] Results for "phone":\<newline>''
            @ ''Phone - $15 - https://www.facebook.com/marketplace/item/42\<newline>''
            @ ''Case - Free - https://www.facebook.com/marketplace/item/44'')\<rparr>)
       = Inr (freshSys\<lparr>bufferFile := Some [],
           outbox := map (\<lambda>recipient.
             \<lparr>mail_from = [], mail_to = recipient,
              subject = ''2 new results for "tablet"'',
              text_body =
                ''Previous notifications:\<newline>''
                @ ''\<newline>\<newline>[11/2/2026, 11:15:00 PM] Results for "phone":\<newline>''
                @ ''Phone - $15 - https://www.facebook.com/marketplace/item/42\<newline>''
                @ ''Case - Free - https://www.facebook.com/marketplace/item/44''
                @ ''\<newline>\<newline>''
                @ ''Tablet '' @ [CHR 0xE2, CHR 0x80, CHR 0x93] @ '' $30\<newline>''
                @ ''https://www.facebook.com/marketplace/item/43''
                @ ''\<newline>\<newline>''
                @ ''Desk '' @ [CHR 0xE2, CHR 0x80, CHR 0x93] @ '' $80\<newline>''
                @ ''https://www.facebook.com/marketplace/item/45'',
              html_body =
                ''<div style="margin-bottom:1em;">\<newline>      \<newline>''
                @ ''      <strong>Tablet</strong><br>\<newline>''
                @ ''      <span>Price: $30</span><br>\<newline>''
                @ ''      \<newline>      \<newline>''
                @ ''      <a href="https://www.facebook.com/marketplace/item/43">View on Facebook</a>\<newline>''
                @ ''    </div>''
                @ ''<div style="margin-bottom:1em;">\<newline>      \<newline>''
                @ ''      <strong>Desk</strong><br>\<newline>''
                @ ''      <span>Price: $80</span><br>\<newline>''
                @ ''      \<newline>      \<newline>''
                @ ''      <a href="https://www.facebook.com/marketplace/item/45">View on Facebook</a>\<newline>''
                @ ''    </div>''\<rparr>)
             [''kfcoleman77@gmail.com'', ''mtopyan@gmail.com'']\<rparr>)\<close>
proof -
  let ?i1 = "[newItem (sampleListing ''42'' ''Phone'' ''$15''), newItem (sampleListing ''44'' ''Case'' ''Free'')]"
  let ?i2 = "[newItem (sampleListing ''43'' ''Tablet'' ''$30''), newItem (sampleListing ''45'' ''Desk'' ''$80'')]"
  have h: "?i1 \<noteq> []" "?i2 \<noteq> []" "writable freshSys"
    "\<not> (activeStart defaultConfig \<le> 23 \<and> 23 \<le> activeEnd defaultConfig)"
    "activeStart defaultConfig \<le> 22 \<and> 22 \<le> activeEnd defaultConfig"
    by (simp_all add: freshSys_def defaultConfig_def)
  have b: "bufferFile freshSys = None" "outbox freshSys = []"
    "recipients defaultConfig = [''kfcoleman77@gmail.com'', ''mtopyan@gmail.com'']"
    "sender defaultConfig = []"
    by (simp_all add: freshSys_def defaultConfig_def)
  note r = notify_buffers_outside_window_and_flushes_inside [OF h, where ?now1.0 = "''11/2/2026, 11:15:00 PM''" and ?term1.0 = "''phone''"
      and ?now2.0 = "''11/3/2026, 10:00:00 PM''" and ?term2.0 = "''tablet''",
      unfolded Let_def b option.case append_Nil]
  note ev = newItem_def sampleListing_def orDefault_def idText_def htmlItem_def show_nat.simps
    digitChar_def
  show ?thesis
    using h(1,2,3,4) h(5) [THEN conjunct1] h(5) [THEN conjunct2] r [THEN conjunct1]
      r [THEN conjunct2, THEN conjunct1]
    by (simp add: ev)
qed

section \<open>Errors of a run\<close>

lemma notify_saveCalls:
  "notify cfg h now searchTerm items s = Inr s2 \<Longrightarrow> saveCalls s2 = saveCalls s"
  by (auto simp: notify_def appendBuffer_def flushBuffer_def Let_def
      split: if_splits option.splits sum.splits)

lemma processTerms_saveCalls:
  "saveCalls (snd (processTerms cfg cats envOf i ts st)) = saveCalls (snd st)"
proof (induction ts arbitrary: i st)
  case Nil
  show ?case by simp
next
  case (Cons t ts)
  show ?case
    by (simp add: Let_def Cons.IH notify_saveCalls split: sum.splits)
qed

lemma loadPastItems_saveCalls: "saveCalls (fst (loadPastItems s)) = saveCalls s"
  by (auto simp: loadPastItems_def tryLoadPastItems_def split: sum.splits past_file.splits if_splits)

lemma notify_writable:
  "notify cfg h now searchTerm items s = Inr s2 \<Longrightarrow> writable s2 = writable s"
  by (auto simp: notify_def appendBuffer_def flushBuffer_def Let_def
      split: if_splits option.splits sum.splits)

lemma processTerms_writable:
  "writable (snd (processTerms cfg cats envOf i ts st)) = writable (snd st)"
proof (induction ts arbitrary: i st)
  case Nil
  show ?case by simp
next
  case (Cons t ts)
  show ?case
    by (simp add: Let_def Cons.IH notify_writable split: sum.splits)
qed

lemma loadPastItems_writable: "writable (fst (loadPastItems s)) = writable s"
  by (auto simp: loadPastItems_def tryLoadPastItems_def split: sum.splits past_file.splits if_splits)

lemma processTerms_append:
  "processTerms cfg cats envOf i (ts1 @ ts2) st
     = processTerms cfg cats envOf (i + length ts1) ts2 (processTerms cfg cats envOf i ts1 st)"
  by (induction ts1 arbitrary: i st) (simp_all add: Let_def)

lemma processTerms_scrape_throws:
  "snd (scrapeTerm cfg cats (envOf i) (fst st)) = Inl e \<Longrightarrow>
   processTerms cfg cats envOf i (t # ts) st
     = processTerms cfg cats envOf (Suc i) ts (fst (scrapeTerm cfg cats (envOf i) (fst st)), snd st)"
  by (simp add: Let_def)

lemma processTerms_notify_throws:
  "snd (scrapeTerm cfg cats (envOf i) (fst st)) = Inr items \<Longrightarrow>
   notify cfg (hour (envOf i)) (stamp (envOf i)) t items (snd st) = Inl e \<Longrightarrow>
   processTerms cfg cats envOf i (t # ts) st
     = processTerms cfg cats envOf (Suc i) ts (fst (scrapeTerm cfg cats (envOf i) (fst st)), snd st)"
  by (simp add: Let_def)

lemma run_ok:
  assumes "launchOk renv" "closeOk renv"
  shows "run cfg cats renv s0
     = (savePastItems
          (fst (processTerms cfg cats (termEnv renv) 0 (searchTerms cfg)
                  (snd (loadPastItems s0), fst (loadPastItems s0))))
          (snd (processTerms cfg cats (termEnv renv) 0 (searchTerms cfg)
                  (snd (loadPastItems s0), fst (loadPastItems s0)))), None)"
  using assms by (simp add: run_def Let_def)

lemma run_rejects:
  "\<not> launchOk renv \<Longrightarrow> run cfg cats renv s0 = (fst (loadPastItems s0), Some LaunchError)"
  "launchOk renv \<Longrightarrow> \<not> closeOk renv \<Longrightarrow>
   run cfg cats renv s0
     = (snd (processTerms cfg cats (termEnv renv) 0 (searchTerms cfg)
               (snd (loadPastItems s0), fst (loadPastItems s0))), Some CloseError)"
  by (simp_all add: run_def Let_def)

text \<open>
  Claim C8 says that every run persists the seen-id set exactly once. \<open>run\<close> catches the
  exceptions of a term only: \<^verbatim>\<open>puppeteer.launch\<close> and \<^verbatim>\<open>browser.close\<close> are awaited outside any
  \<^verbatim>\<open>try\<close>, and \<open>savePastItems\<close> follows \<^verbatim>\<open>browser.close\<close> without a \<^verbatim>\<open>finally\<close>. On a fresh
  installation, let the first term fail, the second find listing 42, and the browser then
  fail to close: the promise of \<open>run\<close> is rejected, \<open>savePastItems\<close> has not been called and
  the file holds the empty set, although both recipients have their mail and the set of
  the loop holds the id.
\<close>

theorem failed_close_skips_save:
  "launchOk (firstTermFails\<lparr>closeOk := False\<rparr>)
   \<and> snd (run twoTermConfig [] (firstTermFails\<lparr>closeOk := False\<rparr>) freshSys) = Some CloseError
   \<and> saveCalls (fst (run twoTermConfig [] (firstTermFails\<lparr>closeOk := False\<rparr>) freshSys)) = []
   \<and> pastItemsFile (fst (run twoTermConfig [] (firstTermFails\<lparr>closeOk := False\<rparr>) freshSys))
       = PastJson []
   \<and> map mail_to (outbox (fst (run twoTermConfig [] (firstTermFails\<lparr>closeOk := False\<rparr>) freshSys)))
       = [''kfcoleman77@gmail.com'', ''mtopyan@gmail.com'']
   \<and> fst (processTerms twoTermConfig [] (termEnv (firstTermFails\<lparr>closeOk := False\<rparr>)) 0
            (searchTerms twoTermConfig) ([], freshSys\<lparr>pastItemsFile := PastJson []\<rparr>))
       = [IdString ''42'']"
proof -
  let ?r = "firstTermFails\<lparr>closeOk := False\<rparr>"
  let ?s1 = "freshSys\<lparr>pastItemsFile := PastJson []\<rparr>"
  have l: "loadPastItems freshSys = (?s1, [])"
    by (simp add: loadPastItems_def tryLoadPastItems_def freshSys_def newSet_def)
  have h: "launchOk ?r" "\<not> closeOk ?r"
    by (simp_all add: firstTermFails_def)
  have te: "termEnv ?r = termEnv firstTermFails"
    by simp
  have p: "passesFilters twoTermConfig (sampleListing ''42'' ''Tablet'' ''$30'')"
    by (simp add: filter_eval price_eval twoTermConfig_def)
  have sc0: "scrapeTerm twoTermConfig [] (termEnv firstTermFails 0) [] = ([], Inl PageError)"
    by (simp add: scrapeTerm_def firstTermFails_def)
  have sc1: "scrapeTerm twoTermConfig [] (termEnv firstTermFails (Suc 0)) []
      = ([IdString ''42''],
         Inr [estimateOnly twoTermConfig [] (newItem (sampleListing ''42'' ''Tablet'' ''$30''))])"
    using p by (simp add: scrapeTerm_def firstTermFails_def filterEdges_def scrapeStep_Node
        set_has_def set_add_def sampleListing_def twoTermConfig_def)
  have w: "writable ?s1" "bufferFile ?s1 = None" "outbox ?s1 = []" "saveCalls ?s1 = []"
    "pastItemsFile ?s1 = PastJson []"
    by (simp_all add: freshSys_def)
  have n: "notify twoTermConfig 12 ''11/2/2026, 12:00:00 PM'' ''tablet''
        [estimateOnly twoTermConfig [] (newItem (sampleListing ''42'' ''Tablet'' ''$30''))] ?s1
      = Inr (?s1\<lparr>outbox := map (\<lambda>recipient.
            \<lparr>mail_from = sender twoTermConfig, mail_to = recipient,
             subject = subjectLine ''tablet''
               [estimateOnly twoTermConfig [] (newItem (sampleListing ''42'' ''Tablet'' ''$30''))],
             text_body = joinWith ''\<newline>\<newline>'' (map textLine
               [estimateOnly twoTermConfig [] (newItem (sampleListing ''42'' ''Tablet'' ''$30''))]),
             html_body = concat (map htmlItem
               [estimateOnly twoTermConfig [] (newItem (sampleListing ''42'' ''Tablet'' ''$30''))])\<rparr>)
           (recipients twoTermConfig)\<rparr>)"
    by (simp add: notify_def flushBuffer_def Let_def w twoTermConfig_def defaultConfig_def)
  have hs: "hour (termEnv firstTermFails (Suc 0)) = 12"
    "stamp (termEnv firstTermFails (Suc 0)) = ''11/2/2026, 12:00:00 PM''"
    by (simp_all add: firstTermFails_def)
  have pt: "processTerms twoTermConfig [] (termEnv firstTermFails) 0 [''phone'', ''tablet''] ([], ?s1)
      = ([IdString ''42''],
         ?s1\<lparr>outbox := map (\<lambda>recipient.
            \<lparr>mail_from = sender twoTermConfig, mail_to = recipient,
             subject = subjectLine ''tablet''
               [estimateOnly twoTermConfig [] (newItem (sampleListing ''42'' ''Tablet'' ''$30''))],
             text_body = joinWith ''\<newline>\<newline>'' (map textLine
               [estimateOnly twoTermConfig [] (newItem (sampleListing ''42'' ''Tablet'' ''$30''))]),
             html_body = concat (map htmlItem
               [estimateOnly twoTermConfig [] (newItem (sampleListing ''42'' ''Tablet'' ''$30''))])\<rparr>)
           (recipients twoTermConfig)\<rparr>)"
    by (simp add: Let_def sc0 sc1 hs n)
  have st: "searchTerms twoTermConfig = [''phone'', ''tablet'']"
    "recipients twoTermConfig = [''kfcoleman77@gmail.com'', ''mtopyan@gmail.com'']"
    by (simp_all add: twoTermConfig_def defaultConfig_def)
  have r: "run twoTermConfig [] ?r freshSys
      = (snd (processTerms twoTermConfig [] (termEnv firstTermFails) 0 [''phone'', ''tablet''] ([], ?s1)),
         Some CloseError)"
    using run_rejects(2) [OF h, of twoTermConfig "[]" freshSys] by (simp add: l st te)
  let ?out = "map (\<lambda>recipient.
            \<lparr>mail_from = sender twoTermConfig, mail_to = recipient,
             subject = subjectLine ''tablet''
               [estimateOnly twoTermConfig [] (newItem (sampleListing ''42'' ''Tablet'' ''$30''))],
             text_body = joinWith ''\<newline>\<newline>'' (map textLine
               [estimateOnly twoTermConfig [] (newItem (sampleListing ''42'' ''Tablet'' ''$30''))]),
             html_body = concat (map htmlItem
               [estimateOnly twoTermConfig [] (newItem (sampleListing ''42'' ''Tablet'' ''$30''))])\<rparr>)
           (recipients twoTermConfig)"
  have fr: "run twoTermConfig [] ?r freshSys = (?s1\<lparr>outbox := ?out\<rparr>, Some CloseError)"
    by (simp only: r pt snd_conv)
  have r1: "snd (run twoTermConfig [] ?r freshSys) = Some CloseError"
    by (simp only: fr snd_conv)
  have r2: "saveCalls (fst (run twoTermConfig [] ?r freshSys)) = []"
    unfolding fr by (simp add: freshSys_def)
  have r3: "pastItemsFile (fst (run twoTermConfig [] ?r freshSys)) = PastJson []"
    unfolding fr by (simp add: freshSys_def)
  have r4: "map mail_to (outbox (fst (run twoTermConfig [] ?r freshSys)))
       = [''kfcoleman77@gmail.com'', ''mtopyan@gmail.com'']"
    unfolding fr by (simp add: st)
  have r5: "fst (processTerms twoTermConfig [] (termEnv ?r) 0 (searchTerms twoTermConfig) ([], ?s1))
       = [IdString ''42'']"
    by (simp only: te st pt fst_conv)
  from h(1) r1 r2 r3 r4 r5 show ?thesis
    by (intro conjI)
qed

text \<open>
  Claim C8, amended. When \<open>scrapeTerm\<close> or \<open>notify\<close> throws for a term, the loop goes on
  with the next term, from the seen-id set the failed term left and the state it found;
  the loop over a list of terms is the loop over its first part followed by the loop over
  the rest, whatever happened in the first part. A run whose browser launches and closes
  returns normally and calls \<open>savePastItems\<close> exactly once, after all terms, with the set
  they left; when the file can be written it then holds that set. A run whose browser
  does not launch is rejected before any term, and a run whose browser does not close is
  rejected after all terms; neither calls \<open>savePastItems\<close>. \<open>loadPastItems\<close> gives the
  empty set, and does not throw, whenever its \<^verbatim>\<open>try\<close> block throws, in particular for a
  file that cannot be read or parsed.
\<close>

theorem run_survives_term_errors_and_saves_once:
  "(snd (scrapeTerm cfg cats (envOf i) (fst st)) = Inl e \<longrightarrow>
      processTerms cfg cats envOf i (t # ts) st
        = processTerms cfg cats envOf (Suc i) ts (fst (scrapeTerm cfg cats (envOf i) (fst st)), snd st))
   \<and> (snd (scrapeTerm cfg cats (envOf i) (fst st)) = Inr items
        \<and> notify cfg (hour (envOf i)) (stamp (envOf i)) t items (snd st) = Inl e \<longrightarrow>
      processTerms cfg cats envOf i (t # ts) st
        = processTerms cfg cats envOf (Suc i) ts (fst (scrapeTerm cfg cats (envOf i) (fst st)), snd st))
   \<and> processTerms cfg cats envOf i (ts1 @ ts2) st
        = processTerms cfg cats envOf (i + length ts1) ts2 (processTerms cfg cats envOf i ts1 st)
   \<and> (launchOk renv \<and> closeOk renv \<longrightarrow>
        snd (run cfg cats renv s0) = None
        \<and> saveCalls (fst (run cfg cats renv s0))
            = saveCalls s0 @ [fst (processTerms cfg cats (termEnv renv) 0 (searchTerms cfg)
                                (snd (loadPastItems s0), fst (loadPastItems s0)))])
   \<and> (launchOk renv \<and> closeOk renv \<and> writable s0 \<longrightarrow>
        pastItemsFile (fst (run cfg cats renv s0))
          = PastJson (map jsonId (fst (processTerms cfg cats (termEnv renv) 0 (searchTerms cfg)
                                         (snd (loadPastItems s0), fst (loadPastItems s0))))))
   \<and> (\<not> launchOk renv \<longrightarrow>
        run cfg cats renv s0 = (fst (loadPastItems s0), Some LaunchError)
        \<and> saveCalls (fst (run cfg cats renv s0)) = saveCalls s0)
   \<and> (launchOk renv \<and> \<not> closeOk renv \<longrightarrow>
        run cfg cats renv s0
          = (snd (processTerms cfg cats (termEnv renv) 0 (searchTerms cfg)
                    (snd (loadPastItems s0), fst (loadPastItems s0))), Some CloseError)
        \<and> saveCalls (fst (run cfg cats renv s0)) = saveCalls s0)
   \<and> (tryLoadPastItems s = Inl e' \<longrightarrow> loadPastItems s = (s, []))
   \<and> (pastItemsFile s = PastUnreadable \<or> pastItemsFile s = PastMalformed \<longrightarrow>
        loadPastItems s = (s, []))"
proof -
  have nl: "\<not> launchOk renv \<longrightarrow>
        run cfg cats renv s0 = (fst (loadPastItems s0), Some LaunchError)
        \<and> saveCalls (fst (run cfg cats renv s0)) = saveCalls s0"
    by (simp add: run_rejects loadPastItems_saveCalls)
  have nc: "launchOk renv \<and> \<not> closeOk renv \<longrightarrow>
        run cfg cats renv s0
          = (snd (processTerms cfg cats (termEnv renv) 0 (searchTerms cfg)
                    (snd (loadPastItems s0), fst (loadPastItems s0))), Some CloseError)
        \<and> saveCalls (fst (run cfg cats renv s0)) = saveCalls s0"
    by (simp add: run_rejects processTerms_saveCalls loadPastItems_saveCalls)
  have a: "launchOk renv \<and> closeOk renv \<longrightarrow>
        snd (run cfg cats renv s0) = None
        \<and> saveCalls (fst (run cfg cats renv s0))
            = saveCalls s0 @ [fst (processTerms cfg cats (termEnv renv) 0 (searchTerms cfg)
                                (snd (loadPastItems s0), fst (loadPastItems s0)))]"
    by (simp add: run_ok savePastItems_def Let_def processTerms_saveCalls loadPastItems_saveCalls)
  have a': "launchOk renv \<and> closeOk renv \<and> writable s0 \<longrightarrow>
        pastItemsFile (fst (run cfg cats renv s0))
          = PastJson (map jsonId (fst (processTerms cfg cats (termEnv renv) 0 (searchTerms cfg)
                                         (snd (loadPastItems s0), fst (loadPastItems s0)))))"
    by (simp add: run_ok savePastItems_def Let_def processTerms_writable loadPastItems_writable)
  have b: "tryLoadPastItems s = Inl e' \<longrightarrow> loadPastItems s = (s, [])"
    by (simp add: loadPastItems_def)
  have c: "pastItemsFile s = PastUnreadable \<or> pastItemsFile s = PastMalformed \<longrightarrow>
        loadPastItems s = (s, [])"
    by (auto simp: loadPastItems_def tryLoadPastItems_def)
  have d: "snd (scrapeTerm cfg cats (envOf i) (fst st)) = Inl e \<longrightarrow>
      processTerms cfg cats envOf i (t # ts) st
        = processTerms cfg cats envOf (Suc i) ts (fst (scrapeTerm cfg cats (envOf i) (fst st)), snd st)"
    using processTerms_scrape_throws by blast
  have f: "snd (scrapeTerm cfg cats (envOf i) (fst st)) = Inr items
        \<and> notify cfg (hour (envOf i)) (stamp (envOf i)) t items (snd st) = Inl e \<longrightarrow>
      processTerms cfg cats envOf i (t # ts) st
        = processTerms cfg cats envOf (Suc i) ts (fst (scrapeTerm cfg cats (envOf i) (fst st)), snd st)"
    using processTerms_notify_throws by blast
  from d f processTerms_append a a' nl nc b c show ?thesis
    by (intro conjI)
qed

theorem run_survives_term_errors_and_saves_once_witness:
  "launchOk firstTermFails \<and> closeOk firstTermFails
   \<and> snd (scrapeTerm twoTermConfig [] (termEnv firstTermFails 0) []) = Inl PageError
   \<and> pastItemsFile (freshSys\<lparr>pastItemsFile := PastMalformed\<rparr>) = PastMalformed
   \<and> loadPastItems (freshSys\<lparr>pastItemsFile := PastMalformed\<rparr>)
       = (freshSys\<lparr>pastItemsFile := PastMalformed\<rparr>, [])
   \<and> snd (run twoTermConfig [] firstTermFails (freshSys\<lparr>pastItemsFile := PastMalformed\<rparr>)) = None
   \<and> saveCalls (fst (run twoTermConfig [] firstTermFails (freshSys\<lparr>pastItemsFile := PastMalformed\<rparr>)))
       = [[IdString ''42'']]
   \<and> writable (freshSys\<lparr>pastItemsFile := PastMalformed\<rparr>)
   \<and> pastItemsFile (fst (run twoTermConfig [] firstTermFails (freshSys\<lparr>pastItemsFile := PastMalformed\<rparr>)))
       = PastJson [IdString ''42'']
   \<and> \<not> launchOk (firstTermFails\<lparr>launchOk := False\<rparr>)
   \<and> snd (run twoTermConfig [] (firstTermFails\<lparr>launchOk := False\<rparr>) freshSys) = Some LaunchError
   \<and> saveCalls (fst (run twoTermConfig [] (firstTermFails\<lparr>launchOk := False\<rparr>) freshSys)) = []
   \<and> launchOk (firstTermFails\<lparr>closeOk := False\<rparr>)
   \<and> \<not> closeOk (firstTermFails\<lparr>closeOk := False\<rparr>)
   \<and> snd (run twoTermConfig [] (firstTermFails\<lparr>closeOk := False\<rparr>) freshSys) = Some CloseError
   \<and> saveCalls (fst (run twoTermConfig [] (firstTermFails\<lparr>closeOk := False\<rparr>) freshSys)) = []"
proof -
  let ?s = "freshSys\<lparr>pastItemsFile := PastMalformed\<rparr>"
  have h: "launchOk firstTermFails \<and> closeOk firstTermFails"
    by (simp add: firstTermFails_def)
  have g: "snd (scrapeTerm twoTermConfig [] (termEnv firstTermFails 0) []) = Inl PageError"
    by (simp add: scrapeTerm_def firstTermFails_def)
  have m: "pastItemsFile ?s = PastMalformed \<or> False"
    by simp
  have l: "loadPastItems ?s = (?s, [])"
    using run_survives_term_errors_and_saves_once [where s = ?s] by simp
  have n: "numericPrice ''$30'' = 30"
    by (simp add: numericPrice_def stripNonNumeric_def isDigit_def parseFloat_def digitsVal_def
        digitVal_def)
  have p: "passesFilters twoTermConfig (sampleListing ''42'' ''Tablet'' ''$30'')"
    by (simp add: passesFilters_def twoTermConfig_def defaultConfig_def sampleListing_def
        orDefault_def n belowMinPrice_def aboveMaxPrice_def)
  have t1: "processTerms twoTermConfig [] (termEnv firstTermFails) 0 [''phone'', ''tablet''] ([], ?s)
      = processTerms twoTermConfig [] (termEnv firstTermFails) (Suc 0) [''tablet''] ([], ?s)"
    using run_survives_term_errors_and_saves_once [where cfg = twoTermConfig and cats = "[]" and envOf = "termEnv firstTermFails"
        and i = 0 and st = "([], ?s)" and e = PageError and t = "''phone''" and ts = "[''tablet'']"] g
    by (simp add: scrapeTerm_def firstTermFails_def)
  have t2: "fst (processTerms twoTermConfig [] (termEnv firstTermFails) (Suc 0) [''tablet''] ([], ?s))
      = [IdString ''42'']"
    using p by (simp add: Let_def scrapeTerm_def firstTermFails_def filterEdges_def scrapeStep_Node
        set_has_def set_add_def sampleListing_def twoTermConfig_def)
  have st: "searchTerms twoTermConfig = [''phone'', ''tablet'']" "saveCalls ?s = []"
    by (simp_all add: twoTermConfig_def freshSys_def)
  have w: "writable ?s"
    by (simp add: freshSys_def)
  from run_survives_term_errors_and_saves_once [where cfg = twoTermConfig and cats = "[]" and renv = firstTermFails and ?s0.0 = ?s] h
  have r: "snd (run twoTermConfig [] firstTermFails ?s) = None"
    "saveCalls (fst (run twoTermConfig [] firstTermFails ?s))
       = saveCalls ?s @ [fst (processTerms twoTermConfig [] (termEnv firstTermFails) 0
                                (searchTerms twoTermConfig) (snd (loadPastItems ?s), fst (loadPastItems ?s)))]"
    "pastItemsFile (fst (run twoTermConfig [] firstTermFails ?s))
       = PastJson (map jsonId (fst (processTerms twoTermConfig [] (termEnv firstTermFails) 0
                                (searchTerms twoTermConfig) (snd (loadPastItems ?s), fst (loadPastItems ?s)))))"
    using w by blast+
  from r(3) have "pastItemsFile (fst (run twoTermConfig [] firstTermFails ?s))
      = PastJson (map jsonId [IdString ''42''])"
    by (simp only: l st t1 t2 fst_conv snd_conv)
  then have r3: "pastItemsFile (fst (run twoTermConfig [] firstTermFails ?s)) = PastJson [IdString ''42'']"
    by (simp add: jsonId_def)
  from r(2) have r2: "saveCalls (fst (run twoTermConfig [] firstTermFails ?s)) = [[IdString ''42'']]"
    by (simp only: l st t1 t2 fst_conv snd_conv append_Nil)
  have hl: "\<not> launchOk (firstTermFails\<lparr>launchOk := False\<rparr>)"
    by simp
  have hc: "launchOk (firstTermFails\<lparr>closeOk := False\<rparr>)"
    "\<not> closeOk (firstTermFails\<lparr>closeOk := False\<rparr>)"
    by (simp_all add: firstTermFails_def)
  have s0: "saveCalls freshSys = []"
    by (simp add: freshSys_def)
  from run_survives_term_errors_and_saves_once [where cfg = twoTermConfig and cats = "[]"
      and renv = "firstTermFails\<lparr>launchOk := False\<rparr>" and ?s0.0 = freshSys] hl
  have f1: "snd (run twoTermConfig [] (firstTermFails\<lparr>launchOk := False\<rparr>) freshSys) = Some LaunchError"
    "saveCalls (fst (run twoTermConfig [] (firstTermFails\<lparr>launchOk := False\<rparr>) freshSys))
       = saveCalls freshSys"
    by (simp_all add: loadPastItems_saveCalls processTerms_saveCalls)
  from run_survives_term_errors_and_saves_once [where cfg = twoTermConfig and cats = "[]"
      and renv = "firstTermFails\<lparr>closeOk := False\<rparr>" and ?s0.0 = freshSys] hc
  have f2: "snd (run twoTermConfig [] (firstTermFails\<lparr>closeOk := False\<rparr>) freshSys) = Some CloseError"
    "saveCalls (fst (run twoTermConfig [] (firstTermFails\<lparr>closeOk := False\<rparr>) freshSys))
       = saveCalls freshSys"
    by (simp_all add: loadPastItems_saveCalls processTerms_saveCalls)
  from h [THEN conjunct1] h [THEN conjunct2] g l r(1) r2 w r3 hl f1 [unfolded s0] hc f2 [unfolded s0]
  show ?thesis
    by (intro conjI) simp_all
qed

end
